theory Spec2Isabelle
  imports Complex_Main
begin

text \<open>
  A model of the request router \<^verbatim>\<open>src/router/app.py\<close>: the token estimator, the
  backend selector, the lifecycle controller with its admission front-end, the request
  handlers and the TTL sweeper, as functions on an explicit state, followed by the
  properties proved of them. Definitions carry the names of the source; a loop or a
  block of a source function that is defined on its own says which it is.
\<close>

section \<open>Python values\<close>

text \<open>
  Exceptions are values of \<open>exn\<close>; a function that can raise returns \<open>exn + 'a\<close>
  with \<open>Inl\<close> for the exception.
\<close>

datatype exn = KeyError | IndexError | TypeError | AttributeError | AssertionError | NotFound | HTTPError

text \<open>
  A parsed JSON body. Numbers are Python ints; numbers with a fraction or an exponent
  (Python floats) are left out of the model. An object is the list of its items in
  insertion order, keys distinct, as \<^verbatim>\<open>json.loads\<close> builds the dict.
\<close>

datatype json =
    JNull
  | JBool bool
  | JInt int
  | JStr string
  | JList "json list"
  | JObj "(string \<times> json) list"

text \<open>\<^verbatim>\<open>d.get(k, default)\<close> on a dict.\<close>

definition dict_get :: "(string \<times> 'v) list \<Rightarrow> string \<Rightarrow> 'v \<Rightarrow> 'v" where
  "dict_get d k dflt = (case map_of d k of None \<Rightarrow> dflt | Some v \<Rightarrow> v)"

text \<open>\<^verbatim>\<open>str(n)\<close> for an int, as the f-strings of the error messages print it.\<close>

definition digit_char :: "nat \<Rightarrow> char" where
  "digit_char d = char_of (48 + d)"

fun str_nat :: "nat \<Rightarrow> string" where
  "str_nat n = (if n < 10 then [digit_char n] else str_nat (n div 10) @ [digit_char (n mod 10)])"

declare str_nat.simps [simp del]

definition str_int :: "int \<Rightarrow> string" where
  "str_int i = (if i < 0 then CHR ''-'' # str_nat (nat (- i)) else str_nat (nat i))"

section \<open>Token estimator\<close>

text \<open>
  \<^verbatim>\<open>estimate_tokens(text)\<close> is \<^verbatim>\<open>len(text) // 4\<close>. Python applies \<^verbatim>\<open>len\<close> to
  whatever it is given: a string, a list and a dict have a length, every other JSON
  value raises TypeError.
\<close>

fun estimate_tokens :: "json \<Rightarrow> exn + int" where
  "estimate_tokens (JStr s) = Inr (int (length s) div 4)"
| "estimate_tokens (JList xs) = Inr (int (length xs) div 4)"
| "estimate_tokens (JObj kvs) = Inr (int (length kvs) div 4)"
| "estimate_tokens _ = Inl TypeError"

text \<open>
  The body of the inner loop, \<^verbatim>\<open>for item in content\<close>: an item counts when it is a dict
  whose \<^verbatim>\<open>type\<close> is \<^verbatim>\<open>"text"\<close>; its \<^verbatim>\<open>text\<close> (default \<^verbatim>\<open>""\<close>) goes to
  \<^verbatim>\<open>estimate_tokens\<close>.
\<close>

fun content_items :: "int \<Rightarrow> json list \<Rightarrow> exn + int" where
  "content_items tot [] = Inr tot"
| "content_items tot (item # items) =
     (case item of
        JObj kvs \<Rightarrow>
          (if map_of kvs ''type'' = Some (JStr ''text'')
           then (case estimate_tokens (dict_get kvs ''text'' (JStr [])) of
                   Inl e \<Rightarrow> Inl e
                 | Inr n \<Rightarrow> content_items (tot + n) items)
           else content_items tot items)
      | _ \<Rightarrow> content_items tot items)"

text \<open>
  \<^verbatim>\<open>for msg in messages\<close>: what the loop iterates over. A list gives its elements, a
  string its characters, a dict its keys; anything else is not iterable.
\<close>

fun py_iter :: "json \<Rightarrow> exn + json list" where
  "py_iter (JList xs) = Inr xs"
| "py_iter (JStr s) = Inr (map (\<lambda>c. JStr [c]) s)"
| "py_iter (JObj kvs) = Inr (map (\<lambda>kv. JStr (fst kv)) kvs)"
| "py_iter _ = Inl TypeError"

text \<open>
  The body of the outer loop. \<^verbatim>\<open>msg.get\<close> exists on a dict only. String content is
  estimated, list content goes through the inner loop, any other content adds nothing.
\<close>

fun message_loop :: "int \<Rightarrow> json list \<Rightarrow> exn + int" where
  "message_loop tot [] = Inr tot"
| "message_loop tot (msg # msgs) =
     (case msg of
        JObj kvs \<Rightarrow>
          (case dict_get kvs ''content'' (JStr []) of
             JStr s \<Rightarrow>
               (case estimate_tokens (JStr s) of
                  Inl e \<Rightarrow> Inl e
                | Inr n \<Rightarrow> message_loop (tot + n) msgs)
           | JList items \<Rightarrow>
               (case content_items tot items of
                  Inl e \<Rightarrow> Inl e
                | Inr t \<Rightarrow> message_loop t msgs)
           | _ \<Rightarrow> message_loop tot msgs)
      | _ \<Rightarrow> Inl AttributeError)"

text \<open>
  \<^verbatim>\<open>total += max_tokens\<close>: an int is added, a bool is the int 0 or 1, every other value
  raises TypeError.
\<close>

fun add_max_tokens :: "int \<Rightarrow> json \<Rightarrow> exn + int" where
  "add_max_tokens tot (JInt n) = Inr (tot + n)"
| "add_max_tokens tot (JBool b) = Inr (tot + (if b then 1 else 0))"
| "add_max_tokens tot _ = Inl TypeError"

definition estimate_request_tokens :: "json \<Rightarrow> exn + int" where
  "estimate_request_tokens payload =
     (case payload of
        JObj kvs \<Rightarrow>
          (case py_iter (dict_get kvs ''messages'' (JList [])) of
             Inl e \<Rightarrow> Inl e
           | Inr msgs \<Rightarrow>
               (case message_loop 0 msgs of
                  Inl e \<Rightarrow> Inl e
                | Inr tot \<Rightarrow> add_max_tokens tot (dict_get kvs ''max_tokens'' (JInt 512))))
      | _ \<Rightarrow> Inl AttributeError)"

section \<open>Policy constants\<close>

text \<open>
  The module reads its policy from the environment once, at import. The values are the
  fields of \<open>config\<close>, under the module's names; \<open>default_config\<close> holds the defaults
  the source gives to \<^verbatim>\<open>os.getenv\<close>.
\<close>

record config =
  INTERACTIVE_WARMUP_S :: int
  AUTOMATION_WARMUP_S :: int
  HEALTH_PROBE_TIMEOUT_S :: int
  MAX_START_RETRIES :: int
  CONTAINER_STOP_TIMEOUT_S :: int
  KEEP_LAST_PER_GPU :: bool
  ONE_HEAVY_PER_GPU :: bool
  STOP_EMBED_RANK_BEFORE_GPU1_GENERATOR :: bool
  WEBUI_FAIL_FAST_IF_GPU_BUSY :: bool
  N8N_ALLOW_PREEMPT_GPU1 :: bool
  ADAPTIVE_ROUTING_ENABLED :: bool
  ADAPTIVE_ROUTING_THRESHOLD :: int
  GLOBAL_TTL_MIN :: int
  GPU1_GENERATOR_TTL_MIN :: int
  GRACE_IDLE_MIN :: int
  CAPS :: "(string \<times> int) list"

definition default_config :: config where
  "default_config = \<lparr>
     INTERACTIVE_WARMUP_S = 45,
     AUTOMATION_WARMUP_S = 180,
     HEALTH_PROBE_TIMEOUT_S = 15,
     MAX_START_RETRIES = 3,
     CONTAINER_STOP_TIMEOUT_S = 45,
     KEEP_LAST_PER_GPU = True,
     ONE_HEAVY_PER_GPU = True,
     STOP_EMBED_RANK_BEFORE_GPU1_GENERATOR = True,
     WEBUI_FAIL_FAST_IF_GPU_BUSY = True,
     N8N_ALLOW_PREEMPT_GPU1 = True,
     ADAPTIVE_ROUTING_ENABLED = True,
     ADAPTIVE_ROUTING_THRESHOLD = 4096,
     GLOBAL_TTL_MIN = 20,
     GPU1_GENERATOR_TTL_MIN = 15,
     GRACE_IDLE_MIN = 5,
     CAPS = [(''llama31-8b-instruct'', 8), (''deepseek-r1-8b'', 6), (''qwen-coder-7b'', 8),
             (''nemo-minitron-8b-instruct'', 9), (''bge-m3'', 8), (''bge-reranker'', 4)] \<rparr>"

section \<open>Registry\<close>

record meta =
  model :: string
  kind :: string
  gpu :: string
  strategy :: string
  base :: string
  container :: string

definition mk_meta :: "string \<Rightarrow> string \<Rightarrow> string \<Rightarrow> string \<Rightarrow> string \<Rightarrow> string \<Rightarrow> meta" where
  "mk_meta m k g s b c = \<lparr> model = m, kind = k, gpu = g, strategy = s, base = b, container = c \<rparr>"

text \<open>The dict \<^verbatim>\<open>BACKENDS\<close>, in insertion order.\<close>

definition BACKENDS :: "(string \<times> meta) list" where
  "BACKENDS = [
     (''llama31-8b-instruct@0'',
        mk_meta ''llama31-8b-instruct'' ''chat'' ''0'' ''long'' ''http://llama_0:8000/v1'' ''llama_0''),
     (''deepseek-r1-8b@0'',
        mk_meta ''deepseek-r1-8b'' ''chat'' ''0'' ''long'' ''http://r1_0:8000/v1'' ''r1_0''),
     (''qwen-coder-7b@0'',
        mk_meta ''qwen-coder-7b'' ''chat'' ''0'' ''long'' ''http://qwen_0:8000/v1'' ''qwen_0''),
     (''nemo-minitron-8b-instruct@0'',
        mk_meta ''nemo-minitron-8b-instruct'' ''chat'' ''0'' ''long'' ''http://minitron_0:8000/v1'' ''minitron_0''),
     (''llama31-8b-instruct@1'',
        mk_meta ''llama31-8b-instruct'' ''chat'' ''1'' ''throughput'' ''http://llama_1:8000/v1'' ''llama_1''),
     (''deepseek-r1-8b@1'',
        mk_meta ''deepseek-r1-8b'' ''chat'' ''1'' ''throughput'' ''http://r1_1:8000/v1'' ''r1_1''),
     (''qwen-coder-7b@1'',
        mk_meta ''qwen-coder-7b'' ''chat'' ''1'' ''throughput'' ''http://qwen_1:8000/v1'' ''qwen_1''),
     (''nemo-minitron-8b-instruct@1'',
        mk_meta ''nemo-minitron-8b-instruct'' ''chat'' ''1'' ''throughput'' ''http://minitron_1:8000/v1'' ''minitron_1''),
     (''bge-m3@1'',
        mk_meta ''bge-m3'' ''embeddings'' ''1'' ''throughput'' ''http://bge_embed_1:8000/v1'' ''bge_embed_1''),
     (''bge-reranker@1'',
        mk_meta ''bge-reranker'' ''rerank'' ''1'' ''throughput'' ''http://bge_reranker_1:8000/v1'' ''bge_reranker_1'')]"

text \<open>\<^verbatim>\<open>BACKENDS[bk]\<close>: KeyError for an id that is not registered.\<close>

definition backend_meta :: "string \<Rightarrow> exn + meta" where
  "backend_meta bk = (case map_of BACKENDS bk of None \<Rightarrow> Inl KeyError | Some m \<Rightarrow> Inr m)"

text \<open>
  \<^verbatim>\<open>MODEL_BACKENDS.setdefault(meta["model"], []).append(bk)\<close>, run over the registry in
  order, builds the index from a model to its backend ids.
\<close>

definition setdefault_append :: "(string \<times> string list) list \<Rightarrow> string \<Rightarrow> string \<Rightarrow> (string \<times> string list) list" where
  "setdefault_append d k v =
     (case map_of d k of
        None \<Rightarrow> d @ [(k, [v])]
      | Some vs \<Rightarrow> map (\<lambda>(k', vs'). if k' = k then (k', vs' @ [v]) else (k', vs')) d)"

definition MODEL_BACKENDS :: "(string \<times> string list) list" where
  "MODEL_BACKENDS = foldl (\<lambda>d (bk, m). setdefault_append d (model m) bk) [] BACKENDS"

definition GPU1_GENERATORS :: "string set" where
  "GPU1_GENERATORS = {''deepseek-r1-8b'', ''qwen-coder-7b'', ''nemo-minitron-8b-instruct'', ''llama31-8b-instruct''}"

section \<open>Shared state and the outside world\<close>

text \<open>
  The container engine knows each container name as missing, stopped or running. The
  module's dicts \<^verbatim>\<open>inflight\<close>, \<^verbatim>\<open>last_used\<close> and \<^verbatim>\<open>sticky_backend_by_gpu\<close> are
  fields of \<open>world\<close>, with the engine's state, the wall clock \<^verbatim>\<open>time.time()\<close> (seconds,
  a real number) and the \<open>trace\<close>: every call that leaves the router (engine query,
  start, stop, kill, health probe, proxy), every sleep and every lock operation, in the
  order they happen. \<^verbatim>\<open>inflight\<close> and \<^verbatim>\<open>last_used\<close> hold every registered id from
  import on and never gain or lose a key, so they are total functions here.

  The model follows one task at a time: no other task changes the world between two
  steps of a call.
\<close>

datatype cstate = Missing | Stopped | Running

datatype lock = BackendLock string | GpuLock string

datatype event =
    StatusQuery string
  | Start string
  | Stop string
  | Kill string
  | Probe string
  | Sleep int
  | Acquire lock
  | Release lock
  | Proxy string string

record world =
  containers :: "string \<Rightarrow> cstate"
  inflight :: "string \<Rightarrow> int"
  last_used :: "string \<Rightarrow> real"
  sticky_backend_by_gpu :: "string \<Rightarrow> string option"
  clock :: real
  trace :: "event list"

text \<open>
  What the outside answers is not decided by the router. \<open>env\<close> fixes it in advance:
  each answer is indexed by the length of the trace at the moment of the call and by
  the container, backend or URL the call is about. \<open>format_exc\<close> is the text of
  \<^verbatim>\<open>traceback.format_exc()\<close> for an exception raised there.
\<close>

record env =
  probe_result :: "nat \<Rightarrow> string \<Rightarrow> exn + bool"
  start_fails :: "nat \<Rightarrow> string \<Rightarrow> bool"
  format_exc :: "nat \<Rightarrow> string \<Rightarrow> string"
  stop_fails :: "nat \<Rightarrow> string \<Rightarrow> bool"
  kill_fails :: "nat \<Rightarrow> string \<Rightarrow> bool"
  proxy_fails :: "nat \<Rightarrow> string \<Rightarrow> bool"

definition log_event :: "event \<Rightarrow> world \<Rightarrow> world" where
  "log_event e w = w\<lparr>trace := trace w @ [e]\<rparr>"

definition sleep :: "int \<Rightarrow> world \<Rightarrow> world" where
  "sleep d w = log_event (Sleep d) (w\<lparr>clock := clock w + of_int d\<rparr>)"

definition set_container :: "string \<Rightarrow> cstate \<Rightarrow> world \<Rightarrow> world" where
  "set_container name st w = w\<lparr>containers := (containers w)(name := st)\<rparr>"

subsection \<open>Container engine adapter\<close>

record status =
  exists :: bool
  running :: bool

definition container_status :: "string \<Rightarrow> world \<Rightarrow> status \<times> world" where
  "container_status name w =
     (\<lparr> exists = (containers w name \<noteq> Missing), running = (containers w name = Running) \<rparr>,
      log_event (StatusQuery name) w)"

text \<open>
  \<^verbatim>\<open>docker_client.containers.get(name)\<close> raises for a missing container, before any
  request to start or stop is sent. A start that succeeds leaves the container running.
  When \<^verbatim>\<open>start_container\<close> raises, \<open>Inl\<close> carries the text that
  \<^verbatim>\<open>traceback.format_exc()\<close> gives in the caller's handler.
\<close>

definition start_container :: "env \<Rightarrow> string \<Rightarrow> world \<Rightarrow> (string + unit) \<times> world" where
  "start_container ev name w =
     (if containers w name = Missing then (Inl (format_exc ev (length (trace w)) name), w)
      else if start_fails ev (length (trace w)) name
        then (Inl (format_exc ev (length (trace w)) name), log_event (Start name) w)
      else (Inr (), set_container name Running (log_event (Start name) w)))"

text \<open>
  \<^verbatim>\<open>stop_container\<close>: a graceful stop; when it raises, a kill; when that raises too, the
  failure is logged and the function returns.
\<close>

definition stop_container :: "env \<Rightarrow> string \<Rightarrow> world \<Rightarrow> (exn + unit) \<times> world" where
  "stop_container ev name w =
     (if containers w name = Missing then (Inl NotFound, w)
      else if \<not> stop_fails ev (length (trace w)) name
        then (Inr (), set_container name Stopped (log_event (Stop name) w))
      else if \<not> kill_fails ev (Suc (length (trace w))) name
        then (Inr (), set_container name Stopped (log_event (Kill name) (log_event (Stop name) w)))
      else (Inr (), log_event (Kill name) (log_event (Stop name) w)))"

subsection \<open>Error envelope\<close>

text \<open>
  \<^verbatim>\<open>json_error(status, msg, typ)\<close> builds a \<^verbatim>\<open>JSONResponse\<close> with that status and the
  content \<^verbatim>\<open>{"error": {"message": msg, "type": typ}}\<close>. A response is kept as its status
  code and the two strings; \<open>body\<close> below renders it.
\<close>

record json_response =
  status_code :: int
  message :: string
  err_type :: string

definition json_error :: "int \<Rightarrow> string \<Rightarrow> string \<Rightarrow> json_response" where
  "json_error status msg t = \<lparr> status_code = status, message = msg, err_type = t \<rparr>"

definition quoted :: "string \<Rightarrow> string" where
  "quoted s = CHR 0x27 # s @ [CHR 0x27]"

text \<open>
  \<^verbatim>\<open>JSONResponse\<close> renders its content with \<^verbatim>\<open>json.dumps\<close> (compact separators, no
  ASCII escaping): inside a string a double quote, a backslash and the control characters
  are escaped, every other character stands for itself.
\<close>

definition hex_digit :: "nat \<Rightarrow> char" where
  "hex_digit d = (if d < 10 then char_of (48 + d) else char_of (87 + d))"

definition json_escape_char :: "char \<Rightarrow> string" where
  "json_escape_char c =
     (if c = CHR 0x22 then [CHR 0x5C, CHR 0x22]
      else if c = CHR 0x5C then [CHR 0x5C, CHR 0x5C]
      else if c = CHR 0x0A then [CHR 0x5C, CHR ''n'']
      else if c = CHR 0x0D then [CHR 0x5C, CHR ''r'']
      else if c = CHR 0x09 then [CHR 0x5C, CHR ''t'']
      else if c = CHR 0x08 then [CHR 0x5C, CHR ''b'']
      else if c = CHR 0x0C then [CHR 0x5C, CHR ''f'']
      else if of_char c < (32::nat)
        then [CHR 0x5C, CHR ''u'', CHR ''0'', CHR ''0'',
              hex_digit (of_char c div 16), hex_digit (of_char c mod 16)]
      else [c])"

definition json_string :: "string \<Rightarrow> string" where
  "json_string s = CHR 0x22 # concat (map json_escape_char s) @ [CHR 0x22]"

definition body :: "json_response \<Rightarrow> string" where
  "body e = ''{'' @ json_string ''error'' @ '':{'' @ json_string ''message'' @ '':'' @ json_string (message e)
            @ '','' @ json_string ''type'' @ '':'' @ json_string (err_type e) @ ''}}''"

text \<open>\<^verbatim>\<open>needle in haystack\<close> on byte strings.\<close>

fun starts_with :: "string \<Rightarrow> string \<Rightarrow> bool" where
  "starts_with [] s = True"
| "starts_with (p # ps) [] = False"
| "starts_with (p # ps) (c # cs) = (p = c \<and> starts_with ps cs)"

fun contains :: "string \<Rightarrow> string \<Rightarrow> bool" where
  "contains needle [] = (needle = [])"
| "contains needle (c # cs) = (starts_with needle (c # cs) \<or> contains needle cs)"

section \<open>Health checks\<close>

text \<open>
  \<^verbatim>\<open>is_backend_healthy\<close> looks the backend up and talks to it over HTTP; what it returns
  or raises is the outside's answer.
\<close>

definition is_backend_healthy :: "env \<Rightarrow> string \<Rightarrow> world \<Rightarrow> (exn + bool) \<times> world" where
  "is_backend_healthy ev bk w =
     (case backend_meta bk of
        Inl e \<Rightarrow> (Inl e, w)
      | Inr m \<Rightarrow> (probe_result ev (length (trace w)) bk, log_event (Probe bk) w))"

text \<open>
  The polling loop of \<^verbatim>\<open>wait_until_healthy\<close>: while the clock is before the deadline,
  probe; an exception of the probe is swallowed; sleep two seconds and go round again.
\<close>

function wait_loop :: "env \<Rightarrow> string \<Rightarrow> real \<Rightarrow> world \<Rightarrow> bool \<times> world" where
  "wait_loop ev bk deadline w =
     (if clock w < deadline
      then (let (r, w1) = is_backend_healthy ev bk w
            in if r = Inr True then (True, w1) else wait_loop ev bk deadline (sleep 2 w1))
      else (False, w))"
  by pat_completeness auto

lemma is_backend_healthy_clock: "clock (snd (is_backend_healthy ev bk w)) = clock w"
  by (simp add: is_backend_healthy_def log_event_def split: sum.splits)

lemma sleep_clock: "clock (sleep d w) = clock w + of_int d"
  by (simp add: sleep_def log_event_def)

termination wait_loop
proof (relation "measure (\<lambda>(ev, bk, deadline, w). nat \<lceil>deadline - clock w\<rceil>)", goal_cases)
  case 1
  show ?case by simp
next
  case (2 ev bk deadline w x r w1)
  have "w1 = snd (is_backend_healthy ev bk w)"
    using 2 by (metis snd_conv)
  then have c: "clock (sleep 2 w1) = clock w + 2"
    by (simp add: sleep_clock is_backend_healthy_clock)
  have "\<lceil>deadline - (clock w + 2)\<rceil> < \<lceil>deadline - clock w\<rceil>" and "0 < \<lceil>deadline - clock w\<rceil>"
    using 2(1) by linarith+
  then show ?case
    using c by simp
qed

declare wait_loop.simps [simp del]

definition wait_until_healthy :: "env \<Rightarrow> string \<Rightarrow> int \<Rightarrow> world \<Rightarrow> bool \<times> world" where
  "wait_until_healthy ev bk timeout_s w = wait_loop ev bk (clock w + of_int timeout_s) w"

section \<open>Adaptive backend selection\<close>

text \<open>
  The first loop of \<^verbatim>\<open>choose_backend\<close>, \<^verbatim>\<open>for gpu in ["0", "1"]\<close>. A sticky id that is
  \<^verbatim>\<open>None\<close> or empty is skipped; \<^verbatim>\<open>BACKENDS[sb]\<close> raises for an unregistered one. With
  adaptive routing on and an estimate given, the sticky backend is returned only when its
  strategy fits; otherwise it is returned at once.
\<close>

fun sticky_loop :: "config \<Rightarrow> world \<Rightarrow> string \<Rightarrow> int option \<Rightarrow> string list \<Rightarrow> exn + string option" where
  "sticky_loop cfg w model_id estimated_tokens [] = Inr None"
| "sticky_loop cfg w model_id estimated_tokens (g # gpus) =
     (case sticky_backend_by_gpu w g of
        None \<Rightarrow> sticky_loop cfg w model_id estimated_tokens gpus
      | Some sb \<Rightarrow>
          (if sb = [] then sticky_loop cfg w model_id estimated_tokens gpus
           else (case backend_meta sb of
                   Inl e \<Rightarrow> Inl e
                 | Inr m \<Rightarrow>
                     (if model m = model_id
                      then (case estimated_tokens of
                              Some t \<Rightarrow>
                                (if ADAPTIVE_ROUTING_ENABLED cfg
                                 then (let needs_long_context = (t > ADAPTIVE_ROUTING_THRESHOLD cfg)
                                       in if (needs_long_context \<and> strategy m = ''long'')
                                             \<or> (\<not> needs_long_context \<and> strategy m = ''throughput'')
                                          then Inr (Some sb)
                                          else sticky_loop cfg w model_id estimated_tokens gpus)
                                 else Inr (Some sb))
                            | None \<Rightarrow> Inr (Some sb))
                      else sticky_loop cfg w model_id estimated_tokens gpus))))"

text \<open>\<^verbatim>\<open>for bk in backends: if <test on BACKENDS[bk]>: return bk\<close>.\<close>

fun first_backend :: "(meta \<Rightarrow> bool) \<Rightarrow> string list \<Rightarrow> exn + string option" where
  "first_backend p [] = Inr None"
| "first_backend p (bk # bks) =
     (case backend_meta bk of
        Inl e \<Rightarrow> Inl e
      | Inr m \<Rightarrow> if p m then Inr (Some bk) else first_backend p bks)"

definition adaptive_choice :: "config \<Rightarrow> string list \<Rightarrow> int option \<Rightarrow> exn + string option" where
  "adaptive_choice cfg backends estimated_tokens =
     (case estimated_tokens of
        Some t \<Rightarrow>
          (if ADAPTIVE_ROUTING_ENABLED cfg
           then (if t > ADAPTIVE_ROUTING_THRESHOLD cfg
                 then first_backend (\<lambda>m. strategy m = ''long'') backends
                 else first_backend (\<lambda>m. strategy m = ''throughput'') backends)
           else Inr None)
      | None \<Rightarrow> Inr None)"

definition role_choice :: "string list \<Rightarrow> string option \<Rightarrow> exn + string option" where
  "role_choice backends role =
     (if role = Some ''webui'' then first_backend (\<lambda>m. gpu m = ''0'') backends
      else if role = Some ''n8n'' then first_backend (\<lambda>m. gpu m = ''1'') backends
      else Inr None)"

definition choose_backend :: "config \<Rightarrow> world \<Rightarrow> string \<Rightarrow> int option \<Rightarrow> string option \<Rightarrow> exn + string option" where
  "choose_backend cfg w model_id estimated_tokens role =
     (case dict_get MODEL_BACKENDS model_id [] of
        [] \<Rightarrow> Inr None
      | b0 # bs \<Rightarrow>
          (case sticky_loop cfg w model_id estimated_tokens [''0'', ''1''] of
             Inl e \<Rightarrow> Inl e
           | Inr (Some sb) \<Rightarrow> Inr (Some sb)
           | Inr None \<Rightarrow>
               (case adaptive_choice cfg (b0 # bs) estimated_tokens of
                  Inl e \<Rightarrow> Inl e
                | Inr (Some bk) \<Rightarrow> Inr (Some bk)
                | Inr None \<Rightarrow>
                    (case role_choice (b0 # bs) role of
                       Inl e \<Rightarrow> Inl e
                     | Inr (Some bk) \<Rightarrow> Inr (Some bk)
                     | Inr None \<Rightarrow> Inr (Some b0)))))"

section \<open>Lifecycle controller\<close>

definition warmup_timeout_for_role :: "config \<Rightarrow> string \<Rightarrow> int" where
  "warmup_timeout_for_role cfg role =
     (if role = ''webui'' then INTERACTIVE_WARMUP_S cfg else AUTOMATION_WARMUP_S cfg)"

definition is_heavy_backend :: "string \<Rightarrow> exn + bool" where
  "is_heavy_backend bk =
     (case backend_meta bk of Inl e \<Rightarrow> Inl e | Inr m \<Rightarrow> Inr (kind m = ''chat''))"

text \<open>
  The loop of \<^verbatim>\<open>running_heavy_backend_on_gpu\<close> over the registry's items: the first
  chat backend of the GPU, other than \<^verbatim>\<open>except_bk\<close>, whose container the engine reports
  running. Only the containers it reaches are queried.
\<close>

fun heavy_scan :: "string \<Rightarrow> string option \<Rightarrow> (string \<times> meta) list \<Rightarrow> world \<Rightarrow> string option \<times> world" where
  "heavy_scan g except_bk [] w = (None, w)"
| "heavy_scan g except_bk ((bk, m) # rest) w =
     (if gpu m \<noteq> g then heavy_scan g except_bk rest w
      else if except_bk \<noteq> None \<and> except_bk \<noteq> Some [] \<and> Some bk = except_bk
        then heavy_scan g except_bk rest w
      else if kind m \<noteq> ''chat'' then heavy_scan g except_bk rest w
      else (let (st, w1) = container_status (container m) w
            in if exists st \<and> running st then (Some bk, w1)
               else heavy_scan g except_bk rest w1))"

definition running_heavy_backend_on_gpu :: "string \<Rightarrow> string option \<Rightarrow> world \<Rightarrow> string option \<times> world" where
  "running_heavy_backend_on_gpu g except_bk w = heavy_scan g except_bk BACKENDS w"

text \<open>
  \<^verbatim>\<open>stop_gpu1_embed_rank_best_effort\<close>: for each of the two ids, look it up, query its
  container and, when it runs, stop it, swallowing what the stop raises; then sleep.
\<close>

fun embed_rank_loop :: "env \<Rightarrow> string list \<Rightarrow> world \<Rightarrow> (exn + unit) \<times> world" where
  "embed_rank_loop ev [] w = (Inr (), w)"
| "embed_rank_loop ev (bk # bks) w =
     (case backend_meta bk of
        Inl e \<Rightarrow> (Inl e, w)
      | Inr m \<Rightarrow>
          (let (st, w1) = container_status (container m) w
           in if exists st \<and> running st
              then embed_rank_loop ev bks (snd (stop_container ev (container m) w1))
              else embed_rank_loop ev bks w1))"

definition stop_gpu1_embed_rank_best_effort :: "env \<Rightarrow> world \<Rightarrow> (exn + unit) \<times> world" where
  "stop_gpu1_embed_rank_best_effort ev w =
     (case embed_rank_loop ev [''bge-m3@1'', ''bge-reranker@1''] w of
        (Inl e, w1) \<Rightarrow> (Inl e, w1)
      | (Inr u, w1) \<Rightarrow> (Inr (), sleep 3 w1))"

text \<open>
  The two places that probe a container found running and answer ready (\<^verbatim>\<open>None\<close>) or
  the \<^verbatim>\<open>unhealthy\<close> error.
\<close>

definition unhealthy_error :: "string \<Rightarrow> json_response" where
  "unhealthy_error model_id =
     json_error 503 (''Backend running but not healthy for '' @ quoted model_id @ ''.'') ''unhealthy''"

definition probe_running :: "config \<Rightarrow> env \<Rightarrow> string \<Rightarrow> string \<Rightarrow> world \<Rightarrow> (exn + json_response option) \<times> world" where
  "probe_running cfg ev bk model_id w =
     (let (ok, w1) = wait_until_healthy ev bk (HEALTH_PROBE_TIMEOUT_S cfg) w
      in (Inr (if ok then None else Some (unhealthy_error model_id)), w1))"

text \<open>
  The one-heavy-per-GPU block. \<open>Inr None\<close> means the start goes on. In the preempt
  branch the lookup of the incumbent and the stop are inside the \<^verbatim>\<open>try\<close>, so whatever
  they raise is swallowed.
\<close>

definition gpu_busy_webui_error :: "string \<Rightarrow> string \<Rightarrow> json_response" where
  "gpu_busy_webui_error g busy_model =
     json_error 503 (''GPU'' @ g @ '' busy with '' @ quoted busy_model @ '' (no preemption for webui).'') ''gpu_busy''"

definition gpu_busy_error :: "string \<Rightarrow> string \<Rightarrow> json_response" where
  "gpu_busy_error g busy_model =
     json_error 503 (''GPU'' @ g @ '' busy with '' @ quoted busy_model @ ''.'') ''gpu_busy''"

definition one_heavy_rule :: "config \<Rightarrow> env \<Rightarrow> string \<Rightarrow> string \<Rightarrow> string \<Rightarrow> world \<Rightarrow> (exn + json_response option) \<times> world" where
  "one_heavy_rule cfg ev bk g role w =
     (if \<not> ONE_HEAVY_PER_GPU cfg then (Inr None, w)
      else (case is_heavy_backend bk of
              Inl e \<Rightarrow> (Inl e, w)
            | Inr False \<Rightarrow> (Inr None, w)
            | Inr True \<Rightarrow>
                (let (busy, w1) = running_heavy_backend_on_gpu g (Some bk) w
                 in (case busy of
                       None \<Rightarrow> (Inr None, w1)
                     | Some busy_bk \<Rightarrow>
                         (if busy_bk = [] then (Inr None, w1)
                          else if role = ''webui'' \<and> WEBUI_FAIL_FAST_IF_GPU_BUSY cfg
                            then (case backend_meta busy_bk of
                                    Inl e \<Rightarrow> (Inl e, w1)
                                  | Inr bm \<Rightarrow> (Inr (Some (gpu_busy_webui_error g (model bm))), w1))
                          else if role = ''n8n'' \<and> g = ''1'' \<and> N8N_ALLOW_PREEMPT_GPU1 cfg
                            then (case backend_meta busy_bk of
                                    Inl e \<Rightarrow> (Inr None, sleep 3 w1)
                                  | Inr bm \<Rightarrow>
                                      (Inr None, sleep 3 (snd (stop_container ev (container bm) w1))))
                          else (case backend_meta busy_bk of
                                  Inl e \<Rightarrow> (Inl e, w1)
                                | Inr bm \<Rightarrow> (Inr (Some (gpu_busy_error g (model bm))), w1)))))))"

text \<open>
  The retry loop, \<^verbatim>\<open>for attempt in range(1, MAX_START_RETRIES + 1)\<close>, by the number of
  attempts left, and the \<^verbatim>\<open>start_failed\<close> error after it.
\<close>

definition start_failed_error :: "config \<Rightarrow> string option \<Rightarrow> json_response" where
  "start_failed_error cfg last_err =
     json_error 503
       (''Backend start failed after '' @ str_int (MAX_START_RETRIES cfg) @ '' attempts: ''
        @ (case last_err of None \<Rightarrow> ''unhealthy'' | Some t \<Rightarrow> if t = [] then ''unhealthy'' else t))
       ''start_failed''"

fun start_attempts :: "config \<Rightarrow> env \<Rightarrow> string \<Rightarrow> meta \<Rightarrow> string \<Rightarrow> nat \<Rightarrow> string option \<Rightarrow> world \<Rightarrow> json_response option \<times> world" where
  "start_attempts cfg ev bk m role 0 last_err w = (Some (start_failed_error cfg last_err), w)"
| "start_attempts cfg ev bk m role (Suc n) last_err w =
     (case start_container ev (container m) w of
        (Inl t, w1) \<Rightarrow> start_attempts cfg ev bk m role n (Some t) (sleep 2 w1)
      | (Inr u, w1) \<Rightarrow>
          (let (ok, w2) = wait_until_healthy ev bk (warmup_timeout_for_role cfg role) w1
           in if ok then (None, w2)
              else start_attempts cfg ev bk m role n last_err
                     (sleep 2 (snd (stop_container ev (container m) w2)))))"

text \<open>
  The block under \<^verbatim>\<open>async with gpu_locks[gpu]\<close>: the one-heavy rule, and when it lets
  the start go on, \<open>start_phase\<close>: the displacement of the embedding and rerank
  backends before a GPU1 generator, then the retry loop.
\<close>

definition start_phase :: "config \<Rightarrow> env \<Rightarrow> string \<Rightarrow> meta \<Rightarrow> string \<Rightarrow> world \<Rightarrow> (exn + json_response option) \<times> world" where
  "start_phase cfg ev bk m role w =
     (if STOP_EMBED_RANK_BEFORE_GPU1_GENERATOR cfg \<and> gpu m = ''1'' \<and> model m \<in> GPU1_GENERATORS
      then (case stop_gpu1_embed_rank_best_effort ev w of
              (Inl e, w1) \<Rightarrow> (Inl e, w1)
            | (Inr u, w1) \<Rightarrow>
                (let (r, w2) = start_attempts cfg ev bk m role (nat (MAX_START_RETRIES cfg)) None w1
                 in (Inr r, w2)))
      else (let (r, w2) = start_attempts cfg ev bk m role (nat (MAX_START_RETRIES cfg)) None w
            in (Inr r, w2)))"

definition gpu_section :: "config \<Rightarrow> env \<Rightarrow> string \<Rightarrow> meta \<Rightarrow> string \<Rightarrow> world \<Rightarrow> (exn + json_response option) \<times> world" where
  "gpu_section cfg ev bk m role w =
     (case one_heavy_rule cfg ev bk (gpu m) role w of
        (Inl e, w1) \<Rightarrow> (Inl e, w1)
      | (Inr (Some err), w1) \<Rightarrow> (Inr (Some err), w1)
      | (Inr None, w1) \<Rightarrow> start_phase cfg ev bk m role w1)"

text \<open>
  The block under \<^verbatim>\<open>async with backend_locks[bk]\<close>: the state is read again, a running
  container is only probed, and the GPU's lock is taken for the rest. \<^verbatim>\<open>gpu_locks\<close> has
  the keys \<^verbatim>\<open>"0"\<close> and \<^verbatim>\<open>"1"\<close>. Each lock is released on the way out.
\<close>

definition start_path :: "config \<Rightarrow> env \<Rightarrow> string \<Rightarrow> meta \<Rightarrow> string \<Rightarrow> world \<Rightarrow> (exn + json_response option) \<times> world" where
  "start_path cfg ev bk m role w =
     (let w1 = log_event (Acquire (BackendLock bk)) w;
          (st2, w2) = container_status (container m) w1
      in if running st2
         then (let (r, w3) = probe_running cfg ev bk (model m) w2
               in (r, log_event (Release (BackendLock bk)) w3))
         else if gpu m \<noteq> ''0'' \<and> gpu m \<noteq> ''1''
           then (Inl KeyError, log_event (Release (BackendLock bk)) w2)
         else (let (r, w3) = gpu_section cfg ev bk m role (log_event (Acquire (GpuLock (gpu m))) w2)
               in (r, log_event (Release (BackendLock bk)) (log_event (Release (GpuLock (gpu m))) w3))))"

definition rate_limited_error :: "string \<Rightarrow> int \<Rightarrow> int \<Rightarrow> json_response" where
  "rate_limited_error model_id model_inflight cap =
     json_error 429
       (''Too many concurrent requests for '' @ quoted model_id @ '' ('' @ str_int model_inflight
        @ ''/'' @ str_int cap @ '').'')
       ''rate_limited''"

definition container_missing_error :: "string \<Rightarrow> json_response" where
  "container_missing_error name =
     json_error 409
       (''Container '' @ quoted name @ '' does not exist. Create it once via docker compose up.'')
       ''container_missing''"

text \<open>\<^verbatim>\<open>sum(inflight[b] for b in MODEL_BACKENDS.get(model_id, []))\<close>.\<close>

definition model_inflight_sum :: "world \<Rightarrow> string \<Rightarrow> int" where
  "model_inflight_sum w model_id = sum_list (map (inflight w) (dict_get MODEL_BACKENDS model_id []))"

definition ensure_online_backend :: "config \<Rightarrow> env \<Rightarrow> string \<Rightarrow> string \<Rightarrow> world \<Rightarrow> (exn + json_response option) \<times> world" where
  "ensure_online_backend cfg ev bk role w =
     (case backend_meta bk of
        Inl e \<Rightarrow> (Inl e, w)
      | Inr m \<Rightarrow>
          (let model_id = model m;
               model_inflight = model_inflight_sum w model_id;
               cap = dict_get (CAPS cfg) model_id 1
           in if model_inflight \<ge> cap
              then (Inr (Some (rate_limited_error model_id model_inflight cap)), w)
              else (let (st, w1) = container_status (container m) w
                    in if \<not> exists st then (Inr (Some (container_missing_error (container m))), w1)
                       else if running st then probe_running cfg ev bk model_id w1
                       else start_path cfg ev bk m role w1)))"

section \<open>Admission front-end\<close>

text \<open>
  The test of the retry loop: \<^verbatim>\<open>err.status_code == 503 and err.body and b"gpu_busy" in err.body\<close>.
\<close>

definition is_gpu_busy_response :: "json_response \<Rightarrow> bool" where
  "is_gpu_busy_response err =
     (status_code err = 503 \<and> body err \<noteq> [] \<and> contains ''gpu_busy'' (body err))"

definition unknown_model_error :: "string \<Rightarrow> json_response" where
  "unknown_model_error shown = json_error 400 (''Unknown model '' @ quoted shown @ ''.'') ''unknown_model''"

definition no_backend_error :: "string \<Rightarrow> json_response" where
  "no_backend_error model_id =
     json_error 503 (''No available backend for '' @ quoted model_id @ ''.'') ''gpu_busy''"

text \<open>
  \<^verbatim>\<open>for bk in ordered\<close>: ready returns the backend; a response that passes the test
  above moves on to the next candidate; any other error is returned.
\<close>

fun try_candidates :: "config \<Rightarrow> env \<Rightarrow> string \<Rightarrow> string \<Rightarrow> string list \<Rightarrow> world \<Rightarrow> (exn + string option \<times> json_response option) \<times> world" where
  "try_candidates cfg ev model_id role [] w = (Inr (None, Some (no_backend_error model_id)), w)"
| "try_candidates cfg ev model_id role (bk # rest) w =
     (case ensure_online_backend cfg ev bk role w of
        (Inl e, w1) \<Rightarrow> (Inl e, w1)
      | (Inr None, w1) \<Rightarrow> (Inr (Some bk, None), w1)
      | (Inr (Some err), w1) \<Rightarrow>
          (if is_gpu_busy_response err then try_candidates cfg ev model_id role rest w1
           else (Inr (None, Some err), w1)))"

definition ensure_and_get_backend :: "config \<Rightarrow> env \<Rightarrow> string \<Rightarrow> string \<Rightarrow> int option \<Rightarrow> world \<Rightarrow> (exn + string option \<times> json_response option) \<times> world" where
  "ensure_and_get_backend cfg ev model_id role estimated_tokens w =
     (case choose_backend cfg w model_id estimated_tokens (Some role) of
        Inl e \<Rightarrow> (Inl e, w)
      | Inr None \<Rightarrow> (Inr (None, Some (unknown_model_error model_id)), w)
      | Inr (Some bk0) \<Rightarrow>
          (if bk0 = [] then (Inr (None, Some (unknown_model_error model_id)), w)
           else (let candidates = dict_get MODEL_BACKENDS model_id [];
                     ordered = bk0 # filter (\<lambda>bk. bk \<noteq> bk0) candidates
                 in try_candidates cfg ev model_id role ordered w)))"

section \<open>Request handlers\<close>

text \<open>
  What a handler returns: an error of the router or the backend's response, which the
  proxy passes through; the model keeps only where it was fetched from.
\<close>

datatype response = RouterError json_response | Proxied string string

definition proxy :: "env \<Rightarrow> string \<Rightarrow> string \<Rightarrow> world \<Rightarrow> (exn + response) \<times> world" where
  "proxy ev b path w =
     (if proxy_fails ev (length (trace w)) (b @ path) then (Inl HTTPError, log_event (Proxy b path) w)
      else (Inr (Proxied b path), log_event (Proxy b path) w))"

text \<open>
  The last lines of each of the three handlers, the same but for the path:
  \<^verbatim>\<open>inflight[bk] += 1\<close>, then under \<^verbatim>\<open>try\<close> the proxy call and, when it returned, the
  writes to \<^verbatim>\<open>last_used\<close> and \<^verbatim>\<open>sticky_backend_by_gpu\<close>, and under \<^verbatim>\<open>finally\<close>
  \<^verbatim>\<open>inflight[bk] -= 1\<close>. The code between two awaits runs without interruption, so the
  lines fall into the part before the proxy call (\<open>begin_proxy\<close>) and the part after it
  (\<open>end_proxy\<close>, given whether the call returned).
\<close>

definition begin_proxy :: "string \<Rightarrow> world \<Rightarrow> world" where
  "begin_proxy bk w = w\<lparr>inflight := (inflight w)(bk := inflight w bk + 1)\<rparr>"

definition end_proxy :: "string \<Rightarrow> meta \<Rightarrow> bool \<Rightarrow> world \<Rightarrow> world" where
  "end_proxy bk m returned w =
     (let w1 = (if returned
                then w\<lparr>last_used := (last_used w)(bk := clock w),
                       sticky_backend_by_gpu := (sticky_backend_by_gpu w)(gpu m \<mapsto> bk)\<rparr>
                else w)
      in w1\<lparr>inflight := (inflight w1)(bk := inflight w1 bk - 1)\<rparr>)"

definition proxied_call :: "env \<Rightarrow> string \<Rightarrow> meta \<Rightarrow> string \<Rightarrow> string \<Rightarrow> world \<Rightarrow> (exn + response) \<times> world" where
  "proxied_call ev bk m b path w =
     (let w1 = begin_proxy bk w;
          (r, w2) = proxy ev b path w1
      in (r, end_proxy bk m (case r of Inl e \<Rightarrow> False | Inr resp \<Rightarrow> True) w2))"

text \<open>\<^verbatim>\<open>f"{model_id}"\<close> for the value under \<^verbatim>\<open>"model"\<close> when it is not a list or a dict.\<close>

fun py_str :: "json \<Rightarrow> string" where
  "py_str JNull = ''None''"
| "py_str (JBool b) = (if b then ''True'' else ''False'')"
| "py_str (JInt i) = str_int i"
| "py_str (JStr s) = s"
| "py_str _ = []"

text \<open>
  \<^verbatim>\<open>chat_completions\<close> from the parsed body on; \<open>role\<close> is what \<^verbatim>\<open>caller_role\<close>
  returned. A body that is not a dict has no \<^verbatim>\<open>get\<close>; a list or a dict under
  \<^verbatim>\<open>"model"\<close> cannot be looked up in \<^verbatim>\<open>MODEL_BACKENDS\<close> (unhashable); any other value
  that is not a registered name gives \<^verbatim>\<open>unknown_model\<close>.
\<close>

definition chat_completions :: "config \<Rightarrow> env \<Rightarrow> string \<Rightarrow> json \<Rightarrow> world \<Rightarrow> (exn + response) \<times> world" where
  "chat_completions cfg ev role payload w =
     (case payload of
        JObj kvs \<Rightarrow>
          (case dict_get kvs ''model'' JNull of
             JList xs \<Rightarrow> (Inl TypeError, w)
           | JObj xs \<Rightarrow> (Inl TypeError, w)
           | JStr model_id \<Rightarrow>
               (if map_of MODEL_BACKENDS model_id = None
                then (Inr (RouterError (unknown_model_error model_id)), w)
                else (case (if ADAPTIVE_ROUTING_ENABLED cfg
                            then map_sum id Some (estimate_request_tokens payload)
                            else Inr None) of
                        Inl e \<Rightarrow> (Inl e, w)
                      | Inr estimated_tokens \<Rightarrow>
                          (case ensure_and_get_backend cfg ev model_id role estimated_tokens w of
                             (Inl e, w1) \<Rightarrow> (Inl e, w1)
                           | (Inr (bk, Some err), w1) \<Rightarrow> (Inr (RouterError err), w1)
                           | (Inr (None, None), w1) \<Rightarrow> (Inl AssertionError, w1)
                           | (Inr (Some bk, None), w1) \<Rightarrow>
                               (case backend_meta bk of
                                  Inl e \<Rightarrow> (Inl e, w1)
                                | Inr m \<Rightarrow> proxied_call ev bk m (base m) ''/chat/completions'' w1))))
           | other \<Rightarrow> (Inr (RouterError (unknown_model_error (py_str other))), w))
      | _ \<Rightarrow> (Inl AttributeError, w))"

text \<open>
  \<^verbatim>\<open>s.rsplit(sep, 1)[0]\<close>: the part of \<open>s\<close> before the last occurrence of \<open>sep\<close>,
  or all of \<open>s\<close> when there is none.
\<close>

fun after_first :: "string \<Rightarrow> string \<Rightarrow> string option" where
  "after_first needle [] = (if needle = [] then Some [] else None)"
| "after_first needle (c # cs) =
     (if starts_with needle (c # cs) then Some (drop (length needle) (c # cs))
      else after_first needle cs)"

definition rsplit_head :: "string \<Rightarrow> string \<Rightarrow> string" where
  "rsplit_head sep s = (case after_first (rev sep) (rev s) of None \<Rightarrow> s | Some r \<Rightarrow> rev r)"

text \<open>
  \<^verbatim>\<open>embeddings\<close> and \<^verbatim>\<open>rerank\<close> differ in where they proxy to and are otherwise the
  same lines: the model's first backend (\<^verbatim>\<open>MODEL_BACKENDS[model_id][0]\<close>), the
  controller, and the last lines shared with \<^verbatim>\<open>chat_completions\<close>. \<open>target\<close> turns
  the backend's base URL into the URL and path of the call.
\<close>

definition single_backend_handler :: "(string \<Rightarrow> string \<times> string) \<Rightarrow> config \<Rightarrow> env \<Rightarrow> string \<Rightarrow> json \<Rightarrow> world \<Rightarrow> (exn + response) \<times> world" where
  "single_backend_handler target cfg ev role payload w =
     (case payload of
        JObj kvs \<Rightarrow>
          (case dict_get kvs ''model'' JNull of
             JList xs \<Rightarrow> (Inl TypeError, w)
           | JObj xs \<Rightarrow> (Inl TypeError, w)
           | JStr model_id \<Rightarrow>
               (case map_of MODEL_BACKENDS model_id of
                  None \<Rightarrow> (Inr (RouterError (unknown_model_error model_id)), w)
                | Some [] \<Rightarrow> (Inl IndexError, w)
                | Some (bk # bks) \<Rightarrow>
                    (case ensure_online_backend cfg ev bk role w of
                       (Inl e, w1) \<Rightarrow> (Inl e, w1)
                     | (Inr (Some err), w1) \<Rightarrow> (Inr (RouterError err), w1)
                     | (Inr None, w1) \<Rightarrow>
                         (case backend_meta bk of
                            Inl e \<Rightarrow> (Inl e, w1)
                          | Inr m \<Rightarrow> proxied_call ev bk m (fst (target (base m))) (snd (target (base m))) w1)))
           | other \<Rightarrow> (Inr (RouterError (unknown_model_error (py_str other))), w))
      | _ \<Rightarrow> (Inl AttributeError, w))"

definition embeddings :: "config \<Rightarrow> env \<Rightarrow> string \<Rightarrow> json \<Rightarrow> world \<Rightarrow> (exn + response) \<times> world" where
  "embeddings = single_backend_handler (\<lambda>b. (b, ''/embeddings''))"

definition rerank :: "config \<Rightarrow> env \<Rightarrow> string \<Rightarrow> json \<Rightarrow> world \<Rightarrow> (exn + response) \<times> world" where
  "rerank = single_backend_handler (\<lambda>b. (rsplit_head ''/v1'' b, ''/rerank''))"

section \<open>TTL sweeper\<close>

definition ttl_for_backend :: "config \<Rightarrow> string \<Rightarrow> exn + int" where
  "ttl_for_backend cfg bk =
     (case backend_meta bk of
        Inl e \<Rightarrow> Inl e
      | Inr m \<Rightarrow>
          (if gpu m = ''1'' \<and> model m \<in> GPU1_GENERATORS then Inr (GPU1_GENERATOR_TTL_MIN cfg)
           else Inr (GLOBAL_TTL_MIN cfg)))"

text \<open>
  Idle seconds of a backend at time \<open>now\<close>: \<^verbatim>\<open>(now - last) if last > 0 else now\<close>.
\<close>

definition idle_seconds :: "world \<Rightarrow> real \<Rightarrow> string \<Rightarrow> real" where
  "idle_seconds w now bk = (if last_used w bk > 0 then now - last_used w bk else now)"

text \<open>
  The \<^verbatim>\<open>for bk, meta in BACKENDS.items()\<close> loop of one tick. The body has no await: it
  runs to its end before any other task. What \<^verbatim>\<open>stop_container\<close> raises is swallowed;
  a KeyError of \<^verbatim>\<open>ttl_for_backend\<close> would leave the loop.
\<close>

fun sweep_loop :: "config \<Rightarrow> env \<Rightarrow> real \<Rightarrow> (string \<times> meta) list \<Rightarrow> world \<Rightarrow> (exn + unit) \<times> world" where
  "sweep_loop cfg ev now [] w = (Inr (), w)"
| "sweep_loop cfg ev now ((bk, m) # rest) w =
     (let (st, w1) = container_status (container m) w
      in if \<not> (exists st \<and> running st) then sweep_loop cfg ev now rest w1
         else if KEEP_LAST_PER_GPU cfg \<and> sticky_backend_by_gpu w1 (gpu m) = Some bk \<and> last_used w1 bk > 0
           then sweep_loop cfg ev now rest w1
         else if inflight w1 bk > 0 then sweep_loop cfg ev now rest w1
         else if idle_seconds w1 now bk < of_int (GRACE_IDLE_MIN cfg * 60)
           then sweep_loop cfg ev now rest w1
         else (case ttl_for_backend cfg bk of
                 Inl e \<Rightarrow> (Inl e, w1)
               | Inr ttl \<Rightarrow>
                   (if idle_seconds w1 now bk \<ge> of_int (ttl * 60)
                    then sweep_loop cfg ev now rest (snd (stop_container ev (container m) w1))
                    else sweep_loop cfg ev now rest w1)))"

text \<open>One round of \<^verbatim>\<open>while True\<close>: sleep a minute, read the clock, sweep the registry.\<close>

definition sweeper_tick :: "config \<Rightarrow> env \<Rightarrow> world \<Rightarrow> (exn + unit) \<times> world" where
  "sweeper_tick cfg ev w = (let w1 = sleep 60 w in sweep_loop cfg ev (clock w1) BACKENDS w1)"

text \<open>
  \<^verbatim>\<open>ttl_sweeper\<close> never returns by itself; \<open>ttl_sweeper cfg ev n\<close> is its first \<open>n\<close>
  rounds, ended early by an exception.
\<close>

fun ttl_sweeper :: "config \<Rightarrow> env \<Rightarrow> nat \<Rightarrow> world \<Rightarrow> (exn + unit) \<times> world" where
  "ttl_sweeper cfg ev 0 w = (Inr (), w)"
| "ttl_sweeper cfg ev (Suc n) w =
     (case sweeper_tick cfg ev w of
        (Inl e, w1) \<Rightarrow> (Inl e, w1)
      | (Inr u, w1) \<Rightarrow> ttl_sweeper cfg ev n w1)"

section \<open>The router as a system\<close>

text \<open>
  At import every counter is 0, no backend has been used and no GPU has a sticky backend.
  The clock is Unix time, a positive number of seconds.
\<close>

definition initial_world :: "(string \<Rightarrow> cstate) \<Rightarrow> real \<Rightarrow> world" where
  "initial_world cs t0 =
     \<lparr> containers = cs, inflight = (\<lambda>bk. 0), last_used = (\<lambda>bk. 0),
       sticky_backend_by_gpu = (\<lambda>g. None), clock = t0, trace = [] \<rparr>"

text \<open>
  The states the running router can be in, with the list of backends whose proxy call is
  pending (one entry per handler that waits for its backend). Handlers, controller calls
  and sweeper rounds interleave at their awaits: a handler enters its proxy call
  (\<open>begin_proxy\<close>) and later leaves it (\<open>end_proxy\<close>, returned or raised); in between
  any other step may happen. Time passes, and containers change state on their own.
\<close>

inductive reachable :: "config \<Rightarrow> env \<Rightarrow> world \<Rightarrow> string list \<Rightarrow> bool" for cfg :: config and ev :: env where
  boot: "0 < t0 \<Longrightarrow> reachable cfg ev (initial_world cs t0) []"
| enter_proxy: "reachable cfg ev w pending \<Longrightarrow> backend_meta bk = Inr m \<Longrightarrow>
     reachable cfg ev (log_event (Proxy b path) (begin_proxy bk w)) (bk # pending)"
| leave_proxy: "reachable cfg ev w pending \<Longrightarrow> bk \<in> set pending \<Longrightarrow> backend_meta bk = Inr m \<Longrightarrow>
     reachable cfg ev (end_proxy bk m returned w) (remove1 bk pending)"
| admission: "reachable cfg ev w pending \<Longrightarrow>
     reachable cfg ev (snd (ensure_and_get_backend cfg ev model_id role estimated_tokens w)) pending"
| controller: "reachable cfg ev w pending \<Longrightarrow>
     reachable cfg ev (snd (ensure_online_backend cfg ev bk role w)) pending"
| sweep: "reachable cfg ev w pending \<Longrightarrow>
     reachable cfg ev (snd (sweeper_tick cfg ev w)) pending"
| time_passes: "reachable cfg ev w pending \<Longrightarrow> 0 \<le> d \<Longrightarrow>
     reachable cfg ev (w\<lparr>clock := clock w + d\<rparr>) pending"
| engine_change: "reachable cfg ev w pending \<Longrightarrow>
     reachable cfg ev (w\<lparr>containers := cs\<rparr>) pending"

section \<open>Notions used in the statements\<close>

subsection \<open>Well-formed payloads and their estimate\<close>

text \<open>
  A payload is well formed when it is an object, \<^verbatim>\<open>messages\<close> is absent or a list of
  objects, every text part of a list content has a string \<^verbatim>\<open>text\<close> (or none), and
  \<^verbatim>\<open>max_tokens\<close> is absent or an int that is not negative.
\<close>

fun text_part_ok :: "json \<Rightarrow> bool" where
  "text_part_ok (JObj kvs) =
     (if map_of kvs ''type'' = Some (JStr ''text'')
      then (case dict_get kvs ''text'' (JStr []) of JStr t \<Rightarrow> True | _ \<Rightarrow> False)
      else True)"
| "text_part_ok _ = True"

fun message_ok :: "json \<Rightarrow> bool" where
  "message_ok (JObj kvs) =
     (case dict_get kvs ''content'' (JStr []) of
        JList items \<Rightarrow> list_all text_part_ok items
      | _ \<Rightarrow> True)"
| "message_ok _ = False"

definition well_formed_payload :: "json \<Rightarrow> bool" where
  "well_formed_payload payload =
     (case payload of
        JObj kvs \<Rightarrow>
          (case dict_get kvs ''messages'' (JList []) of
             JList msgs \<Rightarrow> list_all message_ok msgs
           | _ \<Rightarrow> False)
          \<and> (case dict_get kvs ''max_tokens'' (JInt 512) of
                JInt n \<Rightarrow> 0 \<le> n
              | _ \<Rightarrow> False)
      | _ \<Rightarrow> False)"

text \<open>
  The estimate as the design document words it: per message, a string content counts
  \<open>len div 4\<close>, a list content the sum of \<open>len(text) div 4\<close> over its text parts, any
  other content nothing; \<^verbatim>\<open>max_tokens\<close>, or 512 when absent, is added.
\<close>

fun part_tokens_spec :: "json \<Rightarrow> int" where
  "part_tokens_spec (JObj kvs) =
     (if map_of kvs ''type'' = Some (JStr ''text'')
      then (case dict_get kvs ''text'' (JStr []) of JStr t \<Rightarrow> int (length t) div 4 | _ \<Rightarrow> 0)
      else 0)"
| "part_tokens_spec _ = 0"

fun content_tokens_spec :: "json \<Rightarrow> int" where
  "content_tokens_spec (JStr s) = int (length s) div 4"
| "content_tokens_spec (JList items) = sum_list (map part_tokens_spec items)"
| "content_tokens_spec _ = 0"

fun message_tokens_spec :: "json \<Rightarrow> int" where
  "message_tokens_spec (JObj kvs) = content_tokens_spec (dict_get kvs ''content'' (JStr []))"
| "message_tokens_spec _ = 0"

definition estimate_spec :: "json \<Rightarrow> int" where
  "estimate_spec payload =
     (case payload of
        JObj kvs \<Rightarrow>
          (case dict_get kvs ''messages'' (JList []) of
             JList msgs \<Rightarrow> sum_list (map message_tokens_spec msgs)
           | _ \<Rightarrow> 0)
          + (case dict_get kvs ''max_tokens'' (JInt 512) of JInt n \<Rightarrow> n | _ \<Rightarrow> 0)
      | _ \<Rightarrow> 0)"

subsection \<open>The strategy an estimate asks for\<close>

text \<open>
  The strategy an estimate asks for: \<^verbatim>\<open>needs_long_context\<close> is
  \<^verbatim>\<open>estimated_tokens > ADAPTIVE_ROUTING_THRESHOLD\<close>, and the sticky test accepts
  \<^verbatim>\<open>long\<close> when it holds and \<^verbatim>\<open>throughput\<close> when it does not.
\<close>

definition inferred_need :: "config \<Rightarrow> int \<Rightarrow> string" where
  "inferred_need cfg t = (if t > ADAPTIVE_ROUTING_THRESHOLD cfg then ''long'' else ''throughput'')"

text \<open>A router where each GPU has a sticky backend, of two different models.\<close>

definition w_sticky1 :: world where
  "w_sticky1 = (initial_world (\<lambda>c. Stopped) 1000)
     \<lparr>sticky_backend_by_gpu := [''0'' \<mapsto> ''deepseek-r1-8b@0'', ''1'' \<mapsto> ''qwen-coder-7b@1'']\<rparr>"

subsection \<open>What lies between two states\<close>

text \<open>
  \<open>follows P w w'\<close>: \<open>w'\<close> comes after \<open>w\<close> by events that all satisfy \<open>P\<close>; a
  container changed state only if it exists and a start or a stop of it is among these
  events; the handlers' dicts are untouched; the clock did not go back.
\<close>

definition follows :: "(event \<Rightarrow> bool) \<Rightarrow> world \<Rightarrow> world \<Rightarrow> bool" where
  "follows P w w' =
     (\<exists>es. trace w' = trace w @ es \<and> list_all P es
        \<and> (\<forall>c. containers w' c = containers w c
                \<or> (containers w c \<noteq> Missing \<and> containers w' c \<noteq> Missing
                    \<and> (Start c \<in> set es \<or> Stop c \<in> set es)))
        \<and> inflight w' = inflight w \<and> last_used w' = last_used w
        \<and> sticky_backend_by_gpu w' = sticky_backend_by_gpu w
        \<and> clock w \<le> clock w')"

subsection \<open>Sample states and outsides\<close>

text \<open>
  An outside where nothing fails and every probe is healthy, an idle router with every
  container stopped, one whose embedding model is at its cap, and one with two chat
  backends running on GPU 1.
\<close>

definition ev_ok :: env where
  "ev_ok = \<lparr> probe_result = (\<lambda>n bk. Inr True), start_fails = (\<lambda>n c. False), format_exc = (\<lambda>n c. []),
             stop_fails = (\<lambda>n c. False), kill_fails = (\<lambda>n c. False), proxy_fails = (\<lambda>n u. False) \<rparr>"

definition w_idle :: world where
  "w_idle = initial_world (\<lambda>c. Stopped) 1700000000"

definition w_full :: world where
  "w_full = w_idle\<lparr>inflight := (inflight w_idle)(''bge-m3@1'' := 8)\<rparr>"

definition w_two_running :: world where
  "w_two_running = initial_world ((\<lambda>c. Stopped)(''llama_1'' := Running, ''r1_1'' := Running)) 1700000000"

subsection \<open>The sweeper's test\<close>

text \<open>
  What one pass of the sweeper's loop body asks of a backend before it calls
  \<^verbatim>\<open>stop_container\<close>: the container runs, the keep-last test and the inflight test
  do not skip it, it has been idle for the grace period and for its TTL.
\<close>

definition due_for_stop :: "config \<Rightarrow> world \<Rightarrow> real \<Rightarrow> string \<Rightarrow> meta \<Rightarrow> bool" where
  "due_for_stop cfg w now bk m =
     (containers w (container m) = Running
      \<and> \<not> (KEEP_LAST_PER_GPU cfg \<and> sticky_backend_by_gpu w (gpu m) = Some bk \<and> last_used w bk > 0)
      \<and> \<not> inflight w bk > 0
      \<and> \<not> idle_seconds w now bk < of_int (GRACE_IDLE_MIN cfg * 60)
      \<and> (case ttl_for_backend cfg bk of
            Inl e \<Rightarrow> False
          | Inr ttl \<Rightarrow> idle_seconds w now bk \<ge> of_int (ttl * 60)))"

text \<open>
  A router whose backend \<^verbatim>\<open>deepseek-r1-8b@0\<close> runs and was last used 25 minutes
  before the sweeper reads the clock; one whose handler waits for
  \<^verbatim>\<open>llama31-8b-instruct@0\<close>; the same after the call returned; and a day later.
\<close>

definition w_idle_25min :: world where
  "w_idle_25min = (initial_world ((\<lambda>c. Stopped)(''r1_0'' := Running)) 1699999940)
     \<lparr>last_used := (\<lambda>bk. 0)(''deepseek-r1-8b@0'' := 1699998500)\<rparr>"

definition w_pending :: world where
  "w_pending = log_event (Proxy ''http://llama_0:8000/v1'' ''/chat/completions'')
                 (begin_proxy ''llama31-8b-instruct@0'' (initial_world (\<lambda>c. Running) 1700000000))"

definition w_returned :: world where
  "w_returned = end_proxy ''llama31-8b-instruct@0''
                  (mk_meta ''llama31-8b-instruct'' ''chat'' ''0'' ''long'' ''http://llama_0:8000/v1'' ''llama_0'')
                  True w_pending"

definition w_used :: world where
  "w_used = w_returned\<lparr>clock := clock w_returned + 86400\<rparr>"

subsection \<open>The incumbent of a GPU\<close>

text \<open>
  The test of \<^verbatim>\<open>running_heavy_backend_on_gpu(gpu, except_bk=bk)\<close> on a registry item:
  on that GPU, not \<open>bk\<close> itself, a chat backend, its container running. The incumbent
  is the first item of the registry that passes it.
\<close>

definition incumbent_test :: "world \<Rightarrow> string \<Rightarrow> string \<Rightarrow> string \<times> meta \<Rightarrow> bool" where
  "incumbent_test w g bk x =
     (gpu (snd x) = g \<and> fst x \<noteq> bk \<and> kind (snd x) = ''chat'' \<and> containers w (container (snd x)) = Running)"

text \<open>An event that is not a start, a stop or a kill of a container.\<close>

definition quiet_event :: "event \<Rightarrow> bool" where
  "quiet_event e = (case e of Start c \<Rightarrow> False | Stop c \<Rightarrow> False | Kill c \<Rightarrow> False | _ \<Rightarrow> True)"

text \<open>An idle router but for \<^verbatim>\<open>llama31-8b-instruct@1\<close>, which runs on GPU 1.\<close>

definition w_llama_running :: world where
  "w_llama_running = initial_world ((\<lambda>c. Stopped)(''llama_1'' := Running)) 1700000000"

subsection \<open>A container that cannot start\<close>

text \<open>
  An outside in which every start of the container \<^verbatim>\<open>llama_1\<close> raises, and the text of
  the exception names the reason the container runtime gave; the router after the
  controller has given up on \<^verbatim>\<open>llama31-8b-instruct@1\<close>, and after it has then brought
  \<^verbatim>\<open>llama31-8b-instruct@0\<close> up.
\<close>

definition docker_text :: string where
  "docker_text = ''Traceback (most recent call last):'' @ [CHR 0x0A]
     @ ''docker.errors.APIError: 500 Server Error (nvidia-container-cli: gpu_busy)'' @ [CHR 0x0A]"

definition ev_llama1_broken :: env where
  "ev_llama1_broken = ev_ok\<lparr> start_fails := (\<lambda>n c. c = ''llama_1''), format_exc := (\<lambda>n c. docker_text) \<rparr>"

definition w_after_llama1 :: world where
  "w_after_llama1 = w_idle\<lparr> clock := 1700000009, trace :=
     [StatusQuery ''llama_1'', Acquire (BackendLock ''llama31-8b-instruct@1''),
      StatusQuery ''llama_1'', Acquire (GpuLock ''1''), StatusQuery ''r1_1'',
      StatusQuery ''qwen_1'', StatusQuery ''minitron_1'',
      StatusQuery ''bge_embed_1'', StatusQuery ''bge_reranker_1'', Sleep 3,
      Start ''llama_1'', Sleep 2, Start ''llama_1'', Sleep 2, Start ''llama_1'',
      Sleep 2, Release (GpuLock ''1''),
      Release (BackendLock ''llama31-8b-instruct@1'')] \<rparr>"

definition w_after_llama0 :: world where
  "w_after_llama0 = w_idle\<lparr> containers := (\<lambda>c. Stopped)(''llama_0'' := Running), clock := 1700000009, trace :=
     [StatusQuery ''llama_1'', Acquire (BackendLock ''llama31-8b-instruct@1''),
      StatusQuery ''llama_1'', Acquire (GpuLock ''1''), StatusQuery ''r1_1'',
      StatusQuery ''qwen_1'', StatusQuery ''minitron_1'',
      StatusQuery ''bge_embed_1'', StatusQuery ''bge_reranker_1'', Sleep 3,
      Start ''llama_1'', Sleep 2, Start ''llama_1'', Sleep 2, Start ''llama_1'',
      Sleep 2, Release (GpuLock ''1''),
      Release (BackendLock ''llama31-8b-instruct@1''), StatusQuery ''llama_0'',
      Acquire (BackendLock ''llama31-8b-instruct@0''), StatusQuery ''llama_0'',
      Acquire (GpuLock ''0''), StatusQuery ''r1_0'', StatusQuery ''qwen_0'',
      StatusQuery ''minitron_0'', Start ''llama_0'',
      Probe ''llama31-8b-instruct@0'', Release (GpuLock ''0''),
      Release (BackendLock ''llama31-8b-instruct@0'')] \<rparr>"

section \<open>Facts about the registry\<close>

lemma find_Some_mem: "find P xs = Some x \<Longrightarrow> x \<in> set xs \<and> P x"
  by (induction xs) (auto split: if_splits)

lemma MODEL_BACKENDS_eq:
  "MODEL_BACKENDS =
     [(''llama31-8b-instruct'', [''llama31-8b-instruct@0'', ''llama31-8b-instruct@1'']),
      (''deepseek-r1-8b'', [''deepseek-r1-8b@0'', ''deepseek-r1-8b@1'']),
      (''qwen-coder-7b'', [''qwen-coder-7b@0'', ''qwen-coder-7b@1'']),
      (''nemo-minitron-8b-instruct'', [''nemo-minitron-8b-instruct@0'', ''nemo-minitron-8b-instruct@1'']),
      (''bge-m3'', [''bge-m3@1'']),
      (''bge-reranker'', [''bge-reranker@1''])]"
  by (simp add: MODEL_BACKENDS_def BACKENDS_def setdefault_append_def mk_meta_def)

lemma model_backends_filter:
  "dict_get MODEL_BACKENDS model_id [] = map fst (filter (\<lambda>(bk, m). model m = model_id) BACKENDS)"
  unfolding MODEL_BACKENDS_eq unfolding BACKENDS_def mk_meta_def dict_get_def
  by auto

lemma distinct_backend_ids: "distinct (map fst BACKENDS)"
  by (simp add: BACKENDS_def)

lemma backend_meta_registered: "(bk, m) \<in> set BACKENDS \<Longrightarrow> backend_meta bk = Inr m"
  by (simp add: backend_meta_def distinct_backend_ids)

lemma backend_meta_in_registry: "backend_meta bk = Inr m \<Longrightarrow> (bk, m) \<in> set BACKENDS"
  by (auto simp: backend_meta_def split: option.splits dest: map_of_SomeD)

lemma backend_id_nonempty: "(bk, m) \<in> set BACKENDS \<Longrightarrow> bk \<noteq> []"
  by (auto simp: BACKENDS_def)

lemma first_backend_find:
  "(\<And>bk m. (bk, m) \<in> set l \<Longrightarrow> backend_meta bk = Inr m) \<Longrightarrow>
   first_backend p (map fst (filter q l)) = Inr (map_option fst (find (\<lambda>x. q x \<and> p (snd x)) l))"
proof (induction l)
  case Nil
  then show ?case by simp
next
  case (Cons x l)
  obtain bk m where x: "x = (bk, m)" by (cases x)
  have "backend_meta bk = Inr m" using Cons.prems x by simp
  moreover have "first_backend p (map fst (filter q l)) = Inr (map_option fst (find (\<lambda>x. q x \<and> p (snd x)) l))"
    using Cons by simp
  ultimately show ?case using x by simp
qed

lemma first_backend_of_model:
  "first_backend p (dict_get MODEL_BACKENDS model_id []) =
     Inr (map_option fst (find (\<lambda>(bk, m). model m = model_id \<and> p m) BACKENDS))"
proof -
  have "first_backend p (map fst (filter (\<lambda>(bk, m). model m = model_id) BACKENDS)) =
        Inr (map_option fst (find (\<lambda>x. (\<lambda>(bk, m). model m = model_id) x \<and> p (snd x)) BACKENDS))"
    by (rule first_backend_find) (rule backend_meta_registered)
  then show ?thesis
    by (simp add: model_backends_filter case_prod_unfold)
qed

lemma model_backends_nonempty:
  assumes "(bk, m) \<in> set BACKENDS"
  shows "dict_get MODEL_BACKENDS (model m) [] \<noteq> []"
proof -
  have "bk \<in> set (map fst (filter (\<lambda>(b, m'). model m' = model m) BACKENDS))"
    using assms by force
  then show ?thesis unfolding model_backends_filter by (auto simp: filter_empty_conv)
qed

section \<open>What a call leaves behind\<close>

lemma follows_refl: "follows P w w"
  by (simp add: follows_def)

lemma follows_trans:
  assumes "follows P w w1" and "follows P w1 w2"
  shows "follows P w w2"
proof -
  obtain es1 where 1: "trace w1 = trace w @ es1" "list_all P es1"
    "\<forall>c. containers w1 c = containers w c
                \<or> (containers w c \<noteq> Missing \<and> containers w1 c \<noteq> Missing
                    \<and> (Start c \<in> set es1 \<or> Stop c \<in> set es1))"
    "inflight w1 = inflight w" "last_used w1 = last_used w"
    "sticky_backend_by_gpu w1 = sticky_backend_by_gpu w" "clock w \<le> clock w1"
    using assms(1) unfolding follows_def by blast
  obtain es2 where 2: "trace w2 = trace w1 @ es2" "list_all P es2"
    "\<forall>c. containers w2 c = containers w1 c
                \<or> (containers w1 c \<noteq> Missing \<and> containers w2 c \<noteq> Missing
                    \<and> (Start c \<in> set es2 \<or> Stop c \<in> set es2))"
    "inflight w2 = inflight w1" "last_used w2 = last_used w1"
    "sticky_backend_by_gpu w2 = sticky_backend_by_gpu w1" "clock w1 \<le> clock w2"
    using assms(2) unfolding follows_def by blast
  have c: "\<forall>c. containers w2 c = containers w c
                \<or> (containers w c \<noteq> Missing \<and> containers w2 c \<noteq> Missing
                    \<and> (Start c \<in> set (es1 @ es2) \<or> Stop c \<in> set (es1 @ es2)))"
  proof
    fix c
    show "containers w2 c = containers w c
                \<or> (containers w c \<noteq> Missing \<and> containers w2 c \<noteq> Missing
                    \<and> (Start c \<in> set (es1 @ es2) \<or> Stop c \<in> set (es1 @ es2)))"
      using 1(3) [rule_format, of c] 2(3) [rule_format, of c] by auto
  qed
  show ?thesis
    unfolding follows_def
    using 1 2 c by (intro exI [of _ "es1 @ es2"]) simp
qed

lemma follows_mono: "follows P w w' \<Longrightarrow> (\<And>e. P e \<Longrightarrow> Q e) \<Longrightarrow> follows Q w w'"
  unfolding follows_def list_all_iff by blast

lemma follows_log: "P e \<Longrightarrow> follows P w (log_event e w)"
  by (simp add: follows_def log_event_def)

lemma follows_sleep: "P (Sleep d) \<Longrightarrow> 0 \<le> d \<Longrightarrow> follows P w (sleep d w)"
  by (simp add: follows_def sleep_def log_event_def)

lemma follows_container_status: "P (StatusQuery c) \<Longrightarrow> follows P w (snd (container_status c w))"
  by (simp add: container_status_def follows_log)

lemma follows_start_container: "P (Start c) \<Longrightarrow> follows P w (snd (start_container ev c w))"
  by (simp add: start_container_def follows_def log_event_def set_container_def)

lemma follows_stop_container:
  "P (Stop c) \<Longrightarrow> P (Kill c) \<Longrightarrow> follows P w (snd (stop_container ev c w))"
  by (simp add: stop_container_def follows_def log_event_def set_container_def)

lemma follows_is_backend_healthy: "P (Probe bk) \<Longrightarrow> follows P w (snd (is_backend_healthy ev bk w))"
  by (simp add: is_backend_healthy_def follows_log follows_refl split: sum.splits)

lemma follows_wait_loop:
  "P (Probe bk) \<Longrightarrow> P (Sleep 2) \<Longrightarrow> follows P w (snd (wait_loop ev bk deadline w))"
proof (induction ev bk deadline w rule: wait_loop.induct)
  case (1 ev bk deadline w)
  show ?case
  proof (cases "clock w < deadline")
    case False
    then show ?thesis by (simp add: wait_loop.simps [of ev bk deadline w] follows_refl)
  next
    case True
    obtain r w1 where h: "is_backend_healthy ev bk w = (r, w1)" by (cases "is_backend_healthy ev bk w")
    have f1: "follows P w w1"
      using follows_is_backend_healthy [of P bk w ev] 1(2) h by simp
    show ?thesis
    proof (cases "r = Inr True")
      case True
      then show ?thesis using \<open>clock w < deadline\<close> h f1 by (simp add: wait_loop.simps [of ev bk deadline w])
    next
      case False
      have "follows P (sleep 2 w1) (snd (wait_loop ev bk deadline (sleep 2 w1)))"
        using 1(1) [OF True h [symmetric] refl False 1(2) 1(3)] .
      moreover have "follows P w1 (sleep 2 w1)"
        using 1(3) by (simp add: follows_sleep)
      ultimately have "follows P w (snd (wait_loop ev bk deadline (sleep 2 w1)))"
        using f1 follows_trans by blast
      then show ?thesis using \<open>clock w < deadline\<close> h False by (simp add: wait_loop.simps [of ev bk deadline w])
    qed
  qed
qed

lemma follows_wait_until_healthy:
  "P (Probe bk) \<Longrightarrow> P (Sleep 2) \<Longrightarrow> follows P w (snd (wait_until_healthy ev bk t w))"
  by (simp add: wait_until_healthy_def follows_wait_loop)

lemma follows_probe_running:
  "P (Probe bk) \<Longrightarrow> P (Sleep 2) \<Longrightarrow> follows P w (snd (probe_running cfg ev bk mid w))"
  using follows_wait_until_healthy [of P bk w ev "HEALTH_PROBE_TIMEOUT_S cfg"]
  by (auto simp: probe_running_def split: prod.splits)

lemma follows_heavy_scan:
  "(\<And>c. P (StatusQuery c)) \<Longrightarrow> follows P w (snd (heavy_scan g ex l w))"
proof (induction l arbitrary: w)
  case Nil
  then show ?case by (simp add: follows_refl)
next
  case (Cons x l)
  obtain b bm where x: "x = (b, bm)" by (cases x)
  have q: "follows P w (snd (container_status (container bm) w))"
    using Cons.prems by (simp add: follows_container_status)
  have r: "\<And>w1. follows P w1 (snd (heavy_scan g ex l w1))"
    using Cons by simp
  show ?case
    using q r [of w] r [of "snd (container_status (container bm) w)"] follows_trans [OF q]
    by (auto simp: x split: prod.splits)
qed

lemma follows_embed_rank_loop:
  "(\<And>c. P (StatusQuery c)) \<Longrightarrow> (\<And>c. P (Stop c)) \<Longrightarrow> (\<And>c. P (Kill c)) \<Longrightarrow>
   follows P w (snd (embed_rank_loop ev l w))"
proof (induction l arbitrary: w)
  case Nil
  then show ?case by (simp add: follows_refl)
next
  case (Cons b l)
  show ?case
  proof (cases "backend_meta b")
    case (Inl e)
    then show ?thesis by (simp add: follows_refl)
  next
    case (Inr bm)
    let ?w1 = "snd (container_status (container bm) w)"
    let ?w2 = "snd (stop_container ev (container bm) ?w1)"
    have q: "follows P w ?w1"
      using Cons.prems by (simp add: follows_container_status)
    have s: "follows P ?w1 ?w2"
      using Cons.prems by (simp add: follows_stop_container)
    have r: "\<And>w1. follows P w1 (snd (embed_rank_loop ev l w1))"
      using Cons by simp
    show ?thesis
      using Inr follows_trans [OF q r [of ?w1]] follows_trans [OF follows_trans [OF q s] r [of ?w2]]
      by (auto split: prod.splits)
  qed
qed

lemma follows_stop_gpu1_embed_rank:
  assumes "\<And>c. P (StatusQuery c)" and "\<And>c. P (Stop c)" and "\<And>c. P (Kill c)" and "P (Sleep 3)"
  shows "follows P w (snd (stop_gpu1_embed_rank_best_effort ev w))"
proof -
  let ?r = "embed_rank_loop ev [''bge-m3@1'', ''bge-reranker@1''] w"
  have a: "follows P w (snd ?r)"
    using assms(1-3) by (rule follows_embed_rank_loop)
  have b: "follows P (snd ?r) (sleep 3 (snd ?r))"
    using assms(4) by (simp add: follows_sleep)
  show ?thesis
    using a follows_trans [OF a b]
    by (auto simp: stop_gpu1_embed_rank_best_effort_def split: prod.splits sum.splits)
qed

lemma follows_one_heavy_rule:
  assumes "\<And>c. P (StatusQuery c)" and "\<And>c. P (Stop c)" and "\<And>c. P (Kill c)" and "P (Sleep 3)"
  shows "follows P w (snd (one_heavy_rule cfg ev bk g role w))"
proof -
  let ?s = "running_heavy_backend_on_gpu g (Some bk) w"
  have a: "follows P w (snd ?s)"
    using assms(1) by (simp add: running_heavy_backend_on_gpu_def follows_heavy_scan)
  have b: "follows P (snd ?s) (sleep 3 (snd ?s))"
    using assms(4) by (simp add: follows_sleep)
  have c: "\<And>c. follows P (snd ?s) (sleep 3 (snd (stop_container ev c (snd ?s))))"
    using assms by (meson follows_sleep follows_stop_container follows_trans zero_le_numeral)
  show ?thesis
    using a follows_trans [OF a b] follows_trans [OF a c]
    by (auto simp: one_heavy_rule_def follows_refl split: prod.splits sum.splits option.splits bool.splits)
qed

lemma follows_start_attempts:
  assumes "\<And>c. P (Start c)" and "\<And>c. P (Stop c)" and "\<And>c. P (Kill c)" and "P (Sleep 2)" and "P (Probe bk)"
  shows "follows P w (snd (start_attempts cfg ev bk m role n last_err w))"
proof (induction n arbitrary: last_err w)
  case 0
  then show ?case by (simp add: follows_refl)
next
  case (Suc n)
  let ?s = "start_container ev (container m) w"
  let ?h = "wait_until_healthy ev bk (warmup_timeout_for_role cfg role) (snd ?s)"
  let ?t = "sleep 2 (snd (stop_container ev (container m) (snd ?h)))"
  have a: "follows P w (snd ?s)"
    using assms(1) by (simp add: follows_start_container)
  have b: "follows P (snd ?s) (sleep 2 (snd ?s))"
    using assms(4) by (simp add: follows_sleep)
  have c: "follows P (snd ?s) (snd ?h)"
    using assms(4,5) by (simp add: follows_wait_until_healthy)
  have d: "follows P (snd ?h) ?t"
    using assms by (meson follows_sleep follows_stop_container follows_trans zero_le_numeral)
  have r: "\<And>l w1. follows P w1 (snd (start_attempts cfg ev bk m role n l w1))"
    using Suc by simp
  have 1: "\<And>l. follows P w (snd (start_attempts cfg ev bk m role n l (sleep 2 (snd ?s))))"
    using a b r follows_trans by blast
  have 2: "follows P w (snd ?h)"
    using a c follows_trans by blast
  have 3: "\<And>l. follows P w (snd (start_attempts cfg ev bk m role n l ?t))"
    using 2 d r follows_trans by blast
  show ?case
    using 1 2 3 by (simp add: Let_def prod.case_eq_if sum.case_eq_if)
qed

lemma follows_start_phase:
  assumes "\<And>e. P e"
  shows "follows P w (snd (start_phase cfg ev bk m role w))"
proof -
  let ?e = "stop_gpu1_embed_rank_best_effort ev w"
  have b: "follows P w (snd ?e)"
    using assms by (simp add: follows_stop_gpu1_embed_rank)
  have r: "\<And>w1 n. follows P w1 (snd (start_attempts cfg ev bk m role n None w1))"
    using assms by (simp add: follows_start_attempts)
  have 2: "\<And>n. follows P w (snd (start_attempts cfg ev bk m role n None (snd ?e)))"
    using b r follows_trans by blast
  show ?thesis
    using b 2 r by (auto simp: start_phase_def Let_def prod.case_eq_if sum.case_eq_if)
qed

lemma follows_gpu_section:
  assumes "\<And>e. P e"
  shows "follows P w (snd (gpu_section cfg ev bk m role w))"
proof -
  let ?o = "one_heavy_rule cfg ev bk (gpu m) role w"
  have a: "follows P w (snd ?o)"
    using assms by (simp add: follows_one_heavy_rule)
  have "follows P w (snd (start_phase cfg ev bk m role (snd ?o)))"
    using a assms follows_start_phase follows_trans by blast
  then show ?thesis
    using a by (auto simp: gpu_section_def prod.case_eq_if sum.case_eq_if option.case_eq_if)
qed

lemma follows_start_path:
  assumes "\<And>e. P e"
  shows "follows P w (snd (start_path cfg ev bk m role w))"
proof -
  let ?w1 = "log_event (Acquire (BackendLock bk)) w"
  let ?w2 = "snd (container_status (container m) ?w1)"
  let ?p = "probe_running cfg ev bk (model m) ?w2"
  let ?w3 = "log_event (Acquire (GpuLock (gpu m))) ?w2"
  let ?g = "gpu_section cfg ev bk m role ?w3"
  have a: "follows P w ?w2"
    using assms by (meson follows_log follows_container_status follows_trans)
  have b: "follows P w (log_event (Release (BackendLock bk)) (snd ?p))"
    using assms a by (meson follows_log follows_probe_running follows_trans)
  have c: "follows P w (log_event (Release (BackendLock bk)) ?w2)"
    using assms a by (meson follows_log follows_trans)
  have d: "follows P w (log_event (Release (BackendLock bk)) (log_event (Release (GpuLock (gpu m))) (snd ?g)))"
    using assms a by (meson follows_log follows_gpu_section follows_trans)
  show ?thesis
    using b c d by (simp add: start_path_def Let_def prod.case_eq_if)
qed

lemma follows_ensure_online_backend:
  assumes "\<And>e. P e"
  shows "follows P w (snd (ensure_online_backend cfg ev bk role w))"
proof (cases "backend_meta bk")
  case (Inl e)
  then show ?thesis by (simp add: ensure_online_backend_def follows_refl)
next
  case (Inr m)
  let ?w1 = "snd (container_status (container m) w)"
  have a: "follows P w ?w1"
    using assms by (simp add: follows_container_status)
  have b: "follows P w (snd (probe_running cfg ev bk (model m) ?w1))"
    using assms a by (meson follows_probe_running follows_trans)
  have c: "follows P w (snd (start_path cfg ev bk m role ?w1))"
    using assms a by (meson follows_start_path follows_trans)
  show ?thesis
    using Inr a b c by (simp add: ensure_online_backend_def Let_def follows_refl prod.case_eq_if)
qed

text \<open>A health wait whose first probe answers healthy returns after that probe.\<close>

lemma wait_until_healthy_first_probe:
  assumes "backend_meta bk = Inr m" and "0 < t" and "probe_result ev (length (trace w)) bk = Inr True"
  shows "wait_until_healthy ev bk t w = (True, log_event (Probe bk) w)"
  using assms
  by (simp add: wait_until_healthy_def wait_loop.simps [of ev bk "clock w + of_int t" w] is_backend_healthy_def)

lemma start_attempts_result:
  "fst (start_attempts cfg ev bk m role n last_err w) = Some err \<Longrightarrow>
   err_type err = ''start_failed'' \<and> status_code err = 503"
proof (induction n arbitrary: last_err w)
  case 0
  then show ?case by (auto simp: start_failed_error_def json_error_def)
next
  case (Suc n)
  then show ?case
    by (auto simp: Let_def split: prod.splits sum.splits if_splits)
qed

lemma one_heavy_rule_result:
  "fst (one_heavy_rule cfg ev bk g role w) = Inr (Some err) \<Longrightarrow>
   err_type err = ''gpu_busy'' \<and> status_code err = 503"
  by (auto simp: one_heavy_rule_def gpu_busy_error_def gpu_busy_webui_error_def json_error_def Let_def
      split: prod.splits sum.splits option.splits bool.splits if_splits)

lemma start_attempts_result_pair:
  "start_attempts cfg ev bk m role n last_err w = (Some err, w') \<Longrightarrow>
   err_type err = ''start_failed'' \<and> status_code err = 503"
  using start_attempts_result [of cfg ev bk m role n last_err w err] by simp

lemma one_heavy_rule_result_pair:
  "one_heavy_rule cfg ev bk g role w = (Inr (Some err), w') \<Longrightarrow>
   err_type err = ''gpu_busy'' \<and> status_code err = 503"
  using one_heavy_rule_result [of cfg ev bk g role w err] by simp

lemma start_phase_result:
  "fst (start_phase cfg ev bk m role w) = Inr (Some err) \<Longrightarrow>
   err_type err = ''start_failed'' \<and> status_code err = 503"
  unfolding start_phase_def
  by (auto simp: Let_def split: prod.splits sum.splits if_splits dest: start_attempts_result_pair)

lemma gpu_section_result:
  "fst (gpu_section cfg ev bk m role w) = Inr (Some err) \<Longrightarrow>
   (err_type err = ''gpu_busy'' \<or> err_type err = ''start_failed'') \<and> status_code err = 503"
  unfolding gpu_section_def
  by (auto split: prod.splits sum.splits option.splits
      dest: one_heavy_rule_result_pair start_phase_result)

lemma probe_running_result:
  "fst (probe_running cfg ev bk mid w) = Inr (Some err) \<Longrightarrow>
   err_type err = ''unhealthy'' \<and> status_code err = 503"
  by (auto simp: probe_running_def unhealthy_error_def json_error_def split: prod.splits if_splits)

lemma start_path_result:
  "fst (start_path cfg ev bk m role w) = Inr (Some err) \<Longrightarrow>
   (err_type err = ''unhealthy'' \<or> err_type err = ''gpu_busy'' \<or> err_type err = ''start_failed'')
   \<and> status_code err = 503"
  unfolding start_path_def
  by (auto simp: Let_def prod.case_eq_if split: if_splits
      dest: probe_running_result gpu_section_result)

lemma ensure_online_backend_rate_limited:
  assumes "backend_meta bk = Inr m"
    and "model_inflight_sum w (model m) \<ge> dict_get (CAPS cfg) (model m) 1"
  shows "ensure_online_backend cfg ev bk role w =
           (Inr (Some (rate_limited_error (model m) (model_inflight_sum w (model m))
                         (dict_get (CAPS cfg) (model m) 1))), w)"
  using assms by (simp add: ensure_online_backend_def Let_def)

lemma ensure_online_backend_admitted:
  assumes "backend_meta bk = Inr m"
    and "\<not> model_inflight_sum w (model m) \<ge> dict_get (CAPS cfg) (model m) 1"
  shows "ensure_online_backend cfg ev bk role w =
           (let (st, w1) = container_status (container m) w
            in if \<not> exists st then (Inr (Some (container_missing_error (container m))), w1)
               else if running st then probe_running cfg ev bk (model m) w1
               else start_path cfg ev bk m role w1)"
  using assms by (simp add: ensure_online_backend_def Let_def)

section \<open>One round of the sweeper\<close>

lemma ttl_for_backend_registered:
  "backend_meta bk = Inr m \<Longrightarrow> \<exists>ttl. ttl_for_backend cfg bk = Inr ttl"
  by (simp add: ttl_for_backend_def)

lemma stop_container_trace:
  "\<exists>es. trace (snd (stop_container ev c w)) = trace w @ es
        \<and> (containers w c \<noteq> Missing \<longrightarrow> Stop c \<in> set es)
        \<and> (\<forall>c'. Stop c' \<in> set es \<longrightarrow> c' = c)
        \<and> (\<forall>c'. c' \<noteq> c \<longrightarrow> containers (snd (stop_container ev c w)) c' = containers w c')
        \<and> inflight (snd (stop_container ev c w)) = inflight w
        \<and> last_used (snd (stop_container ev c w)) = last_used w
        \<and> sticky_backend_by_gpu (snd (stop_container ev c w)) = sticky_backend_by_gpu w"
  by (simp add: stop_container_def log_event_def set_container_def)

lemma sweep_loop_stops:
  assumes "distinct (map (\<lambda>x. container (snd x)) l)"
    and "\<And>bk m. (bk, m) \<in> set l \<Longrightarrow> backend_meta bk = Inr m"
  shows "fst (sweep_loop cfg ev now l w) = Inr ()
       \<and> (\<exists>es. trace (snd (sweep_loop cfg ev now l w)) = trace w @ es
             \<and> (\<forall>c. Stop c \<in> set es \<longleftrightarrow> (\<exists>(bk, m) \<in> set l. container m = c \<and> due_for_stop cfg w now bk m)))
       \<and> (\<forall>c. c \<notin> (\<lambda>x. container (snd x)) ` set l \<longrightarrow>
             containers (snd (sweep_loop cfg ev now l w)) c = containers w c)
       \<and> inflight (snd (sweep_loop cfg ev now l w)) = inflight w
       \<and> last_used (snd (sweep_loop cfg ev now l w)) = last_used w
       \<and> sticky_backend_by_gpu (snd (sweep_loop cfg ev now l w)) = sticky_backend_by_gpu w"
  using assms
proof (induction l arbitrary: w)
  case Nil
  then show ?case by simp
next
  case (Cons x l)
  obtain bk m where x: "x = (bk, m)" by (cases x)
  have reg: "backend_meta bk = Inr m" using Cons.prems(2) x by simp
  obtain ttl where ttl: "ttl_for_backend cfg bk = Inr ttl"
    using ttl_for_backend_registered [OF reg] by blast
  have dl: "distinct (map (\<lambda>x. container (snd x)) l)" and notin: "container m \<notin> (\<lambda>x. container (snd x)) ` set l"
    using Cons.prems(1) x by auto
  have regl: "\<And>bk m. (bk, m) \<in> set l \<Longrightarrow> backend_meta bk = Inr m"
    using Cons.prems(2) by simp
  let ?w1 = "log_event (StatusQuery (container m)) w"
  let ?w2 = "snd (stop_container ev (container m) ?w1)"
  define w' where "w' = (if due_for_stop cfg w now bk m then ?w2 else ?w1)"
  have step: "sweep_loop cfg ev now (x # l) w = sweep_loop cfg ev now l w'"
    unfolding w'_def x
    by (auto simp: due_for_stop_def container_status_def ttl idle_seconds_def log_event_def)
  obtain es0 where es0: "trace ?w2 = trace ?w1 @ es0"
      "containers ?w1 (container m) \<noteq> Missing \<longrightarrow> Stop (container m) \<in> set es0"
      "\<forall>c'. Stop c' \<in> set es0 \<longrightarrow> c' = container m"
      "\<forall>c'. c' \<noteq> container m \<longrightarrow> containers ?w2 c' = containers ?w1 c'"
      "inflight ?w2 = inflight ?w1" "last_used ?w2 = last_used ?w1"
      "sticky_backend_by_gpu ?w2 = sticky_backend_by_gpu ?w1"
    using stop_container_trace [of ev "container m" ?w1] by blast
  define es1 where "es1 = (if due_for_stop cfg w now bk m then StatusQuery (container m) # es0 else [StatusQuery (container m)])"
  have t1: "trace w' = trace w @ es1"
    unfolding w'_def es1_def using es0(1) by (simp add: log_event_def)
  have s1: "\<And>c. Stop c \<in> set es1 \<longleftrightarrow> (c = container m \<and> due_for_stop cfg w now bk m)"
    unfolding es1_def using es0(2,3) by (auto simp: due_for_stop_def log_event_def)
  have c1: "\<And>c. c \<noteq> container m \<Longrightarrow> containers w' c = containers w c"
    unfolding w'_def using es0(4) by (simp add: log_event_def)
  have f1: "inflight w' = inflight w" "last_used w' = last_used w"
      "sticky_backend_by_gpu w' = sticky_backend_by_gpu w"
    unfolding w'_def using es0(5-7) by (simp_all add: log_event_def)
  have due_eq: "\<And>b bm. (b, bm) \<in> set l \<Longrightarrow> due_for_stop cfg w' now b bm = due_for_stop cfg w now b bm"
  proof -
    fix b bm assume "(b, bm) \<in> set l"
    then have "container bm \<noteq> container m" using notin by force
    moreover have "idle_seconds w' now b = idle_seconds w now b"
      using f1 by (simp add: idle_seconds_def)
    ultimately show "due_for_stop cfg w' now b bm = due_for_stop cfg w now b bm"
      using c1 f1 by (simp add: due_for_stop_def split: sum.splits)
  qed
  have IH: "fst (sweep_loop cfg ev now l w') = Inr ()
       \<and> (\<exists>es. trace (snd (sweep_loop cfg ev now l w')) = trace w' @ es
             \<and> (\<forall>c. Stop c \<in> set es \<longleftrightarrow> (\<exists>(bk, m) \<in> set l. container m = c \<and> due_for_stop cfg w' now bk m)))
       \<and> (\<forall>c. c \<notin> (\<lambda>x. container (snd x)) ` set l \<longrightarrow>
             containers (snd (sweep_loop cfg ev now l w')) c = containers w' c)
       \<and> inflight (snd (sweep_loop cfg ev now l w')) = inflight w'
       \<and> last_used (snd (sweep_loop cfg ev now l w')) = last_used w'
       \<and> sticky_backend_by_gpu (snd (sweep_loop cfg ev now l w')) = sticky_backend_by_gpu w'"
    by (rule Cons.IH) (use dl regl in auto)
  obtain es where es: "trace (snd (sweep_loop cfg ev now l w')) = trace w' @ es"
    "\<forall>c. Stop c \<in> set es \<longleftrightarrow> (\<exists>(bk, m) \<in> set l. container m = c \<and> due_for_stop cfg w' now bk m)"
    using IH by blast
  have stops: "\<forall>c. Stop c \<in> set (es1 @ es) \<longleftrightarrow> (\<exists>(bk, m) \<in> set (x # l). container m = c \<and> due_for_stop cfg w now bk m)"
  proof
    fix c
    have "(\<exists>(bk, m) \<in> set l. container m = c \<and> due_for_stop cfg w' now bk m)
          \<longleftrightarrow> (\<exists>(bk, m) \<in> set l. container m = c \<and> due_for_stop cfg w now bk m)"
      using due_eq by (auto simp: case_prod_unfold)
    then show "Stop c \<in> set (es1 @ es) \<longleftrightarrow> (\<exists>(bk, m) \<in> set (x # l). container m = c \<and> due_for_stop cfg w now bk m)"
      using s1 [of c] es(2) x by auto
  qed
  have conts: "\<forall>c. c \<notin> (\<lambda>x. container (snd x)) ` set (x # l) \<longrightarrow>
             containers (snd (sweep_loop cfg ev now l w')) c = containers w c"
    using IH c1 x by auto
  have tr: "trace (snd (sweep_loop cfg ev now l w')) = trace w @ (es1 @ es)"
    using t1 es(1) by simp
  have ex: "\<exists>es'. trace (snd (sweep_loop cfg ev now l w')) = trace w @ es'
             \<and> (\<forall>c. Stop c \<in> set es' \<longleftrightarrow> (\<exists>(bk, m) \<in> set (x # l). container m = c \<and> due_for_stop cfg w now bk m))"
    using tr stops by blast
  show ?case
    unfolding step
    using IH ex conts f1 by simp
qed

lemma distinct_containers: "distinct (map (\<lambda>x. container (snd x)) BACKENDS)"
  by (simp add: BACKENDS_def mk_meta_def)

lemma generators_are_chat: "(bk, m) \<in> set BACKENDS \<Longrightarrow> model m \<in> GPU1_GENERATORS \<longleftrightarrow> kind m = ''chat''"
  by (auto simp: BACKENDS_def mk_meta_def GPU1_GENERATORS_def)

lemma same_container_same_backend:
  assumes "(bk, m) \<in> set BACKENDS" and "(bk', m') \<in> set BACKENDS" and "container m' = container m"
  shows "bk' = bk \<and> m' = m"
proof -
  have "inj_on (\<lambda>x. container (snd x)) (set BACKENDS)"
    using distinct_containers by (simp add: distinct_map)
  then have "(bk', m') = (bk, m)"
    using assms inj_onD [of "\<lambda>x. container (snd x)" "set BACKENDS" "(bk', m')" "(bk, m)"] by simp
  then show ?thesis by simp
qed

lemma sweeper_tick_stops:
  "fst (sweeper_tick cfg ev w) = Inr ()
   \<and> (\<exists>es. trace (snd (sweeper_tick cfg ev w)) = trace w @ Sleep 60 # es
         \<and> (\<forall>bk m. (bk, m) \<in> set BACKENDS \<longrightarrow>
               (Stop (container m) \<in> set es \<longleftrightarrow> due_for_stop cfg w (clock w + 60) bk m)))"
proof -
  let ?w1 = "sleep 60 w"
  have d: "\<And>bk m. due_for_stop cfg ?w1 (clock ?w1) bk m = due_for_stop cfg w (clock w + 60) bk m"
    by (simp add: due_for_stop_def sleep_def log_event_def idle_seconds_def split: sum.splits)
  obtain es where es: "fst (sweep_loop cfg ev (clock ?w1) BACKENDS ?w1) = Inr ()"
      "trace (snd (sweep_loop cfg ev (clock ?w1) BACKENDS ?w1)) = trace ?w1 @ es"
      "\<forall>c. Stop c \<in> set es \<longleftrightarrow> (\<exists>(bk, m) \<in> set BACKENDS. container m = c \<and> due_for_stop cfg ?w1 (clock ?w1) bk m)"
    using sweep_loop_stops [OF distinct_containers backend_meta_registered, of cfg ev "clock ?w1" ?w1]
    by blast
  have "\<forall>bk m. (bk, m) \<in> set BACKENDS \<longrightarrow>
               (Stop (container m) \<in> set es \<longleftrightarrow> due_for_stop cfg w (clock w + 60) bk m)"
  proof (intro allI impI)
    fix bk m assume r: "(bk, m) \<in> set BACKENDS"
    have "Stop (container m) \<in> set es \<longleftrightarrow>
          (\<exists>(bk', m') \<in> set BACKENDS. container m' = container m \<and> due_for_stop cfg w (clock w + 60) bk' m')"
      using es(3) d by simp
    also have "\<dots> \<longleftrightarrow> due_for_stop cfg w (clock w + 60) bk m"
      using r same_container_same_backend [OF r] by blast
    finally show "Stop (container m) \<in> set es \<longleftrightarrow> due_for_stop cfg w (clock w + 60) bk m" .
  qed
  then show ?thesis
    using es(1,2) by (simp add: sweeper_tick_def Let_def sleep_def log_event_def)
qed

section \<open>Invariants of the running router\<close>

lemma follows_sweep_loop:
  assumes "\<And>e. P e"
  shows "follows P w (snd (sweep_loop cfg ev now l w))"
proof (induction l arbitrary: w)
  case Nil
  then show ?case by (simp add: follows_refl)
next
  case (Cons x l)
  obtain bk m where x: "x = (bk, m)" by (cases x)
  let ?w1 = "snd (container_status (container m) w)"
  let ?w2 = "snd (stop_container ev (container m) ?w1)"
  have a: "follows P w ?w1"
    using assms by (simp add: follows_container_status)
  have b: "follows P w ?w2"
    using assms a by (meson follows_stop_container follows_trans)
  have r: "\<And>w1. follows P w1 (snd (sweep_loop cfg ev now l w1))"
    using Cons by simp
  have 1: "follows P w (snd (sweep_loop cfg ev now l ?w1))"
    using a r follows_trans by blast
  have 2: "follows P w (snd (sweep_loop cfg ev now l ?w2))"
    using b r follows_trans by blast
  show ?case
    using a 1 2 by (simp add: x Let_def prod.case_eq_if sum.case_eq_if)
qed

lemma follows_sweeper_tick:
  assumes "\<And>e. P e"
  shows "follows P w (snd (sweeper_tick cfg ev w))"
  unfolding sweeper_tick_def Let_def
  using assms by (meson follows_sleep follows_sweep_loop follows_trans zero_le_numeral)

lemma follows_try_candidates:
  assumes "\<And>e. P e"
  shows "follows P w (snd (try_candidates cfg ev model_id role l w))"
proof (induction l arbitrary: w)
  case Nil
  then show ?case by (simp add: follows_refl)
next
  case (Cons bk l)
  let ?w1 = "snd (ensure_online_backend cfg ev bk role w)"
  have a: "follows P w ?w1"
    using assms by (simp add: follows_ensure_online_backend)
  have "follows P w (snd (try_candidates cfg ev model_id role l ?w1))"
    using a Cons follows_trans by blast
  then show ?case
    using a by (simp add: prod.case_eq_if sum.case_eq_if option.case_eq_if)
qed

lemma follows_ensure_and_get_backend:
  assumes "\<And>e. P e"
  shows "follows P w (snd (ensure_and_get_backend cfg ev model_id role estimated_tokens w))"
  using assms
  by (simp add: ensure_and_get_backend_def follows_refl follows_try_candidates Let_def
      del: try_candidates.simps split: sum.splits option.splits)

lemma follows_handler_state:
  assumes "follows P w w'"
  shows "inflight w' = inflight w" and "last_used w' = last_used w"
    and "sticky_backend_by_gpu w' = sticky_backend_by_gpu w" and "clock w \<le> clock w'"
  using assms unfolding follows_def by auto

lemma count_list_pos: "bk \<in> set xs \<Longrightarrow> 0 < count_list xs bk"
  by (induction xs) auto

lemma reachable_invariant:
  assumes "reachable cfg ev w pending"
  shows "0 < clock w
       \<and> (\<forall>bk. inflight w bk = int (count_list pending bk))
       \<and> (\<forall>g bk. sticky_backend_by_gpu w g = Some bk \<longrightarrow> 0 < last_used w bk)"
  using assms
proof (induction rule: reachable.induct)
  case (boot t0 cs)
  then show ?case by (simp add: initial_world_def)
next
  case (enter_proxy w pending bk m b path)
  then show ?case by (simp add: begin_proxy_def log_event_def)
next
  case (leave_proxy w pending bk m returned)
  then show ?case
    using count_list_pos [of bk pending]
    by (auto simp: end_proxy_def Let_def)
next
  case (admission w pending model_id role estimated_tokens)
  have "follows (\<lambda>e. True) w (snd (ensure_and_get_backend cfg ev model_id role estimated_tokens w))"
    by (simp add: follows_ensure_and_get_backend)
  from follows_handler_state [OF this] admission.IH show ?case by auto
next
  case (controller w pending bk role)
  have "follows (\<lambda>e. True) w (snd (ensure_online_backend cfg ev bk role w))"
    by (simp add: follows_ensure_online_backend)
  from follows_handler_state [OF this] controller.IH show ?case by auto
next
  case (sweep w pending)
  have "follows (\<lambda>e. True) w (snd (sweeper_tick cfg ev w))"
    by (simp add: follows_sweeper_tick)
  from follows_handler_state [OF this] sweep.IH show ?case by auto
next
  case (time_passes w pending d)
  then show ?case by simp
next
  case (engine_change w pending cs)
  then show ?case by simp
qed

lemma reachable_w_pending: "reachable cfg ev w_pending [''llama31-8b-instruct@0'']"
  unfolding w_pending_def
  by (rule reachable.enter_proxy [OF reachable.boot]) (simp_all add: backend_meta_def BACKENDS_def)

lemma reachable_w_used: "reachable cfg ev w_used []"
proof -
  have m: "backend_meta ''llama31-8b-instruct@0'' =
      Inr (mk_meta ''llama31-8b-instruct'' ''chat'' ''0'' ''long'' ''http://llama_0:8000/v1'' ''llama_0'')"
    by (simp add: backend_meta_def BACKENDS_def)
  have "reachable cfg ev w_returned (remove1 ''llama31-8b-instruct@0'' [''llama31-8b-instruct@0''])"
    unfolding w_returned_def
    by (rule reachable.leave_proxy [OF reachable_w_pending _ m]) simp
  then have "reachable cfg ev w_returned []"
    by simp
  then show ?thesis
    unfolding w_used_def by (rule reachable.time_passes) simp
qed

section \<open>The start path\<close>

lemma heavy_scan_find:
  assumes "bk \<noteq> []"
  shows "fst (heavy_scan g (Some bk) l w) = map_option fst (find (incumbent_test w g bk) l)"
proof (induction l arbitrary: w)
  case Nil
  then show ?case by simp
next
  case (Cons x l)
  obtain b bm where x: "x = (b, bm)" by (cases x)
  have same: "incumbent_test (log_event (StatusQuery (container bm)) w) g bk = incumbent_test w g bk"
    by (simp add: incumbent_test_def log_event_def fun_eq_iff)
  show ?case
    using assms Cons [of w] Cons [of "log_event (StatusQuery (container bm)) w"] same
    by (auto simp: x incumbent_test_def container_status_def)
qed

lemma follows_running_heavy_backend_on_gpu:
  "follows (\<lambda>e. \<exists>c. e = StatusQuery c) w (snd (running_heavy_backend_on_gpu g ex w))"
  unfolding running_heavy_backend_on_gpu_def by (rule follows_heavy_scan) simp

lemma follows_quiet_containers:
  assumes "follows quiet_event w w'"
  shows "containers w' = containers w"
proof -
  obtain es where es: "list_all quiet_event es"
    "\<forall>c. containers w' c = containers w c \<or> (Start c \<in> set es \<or> Stop c \<in> set es)"
    using assms unfolding follows_def by blast
  have "\<And>c. Start c \<notin> set es \<and> Stop c \<notin> set es"
    using es(1) by (auto simp: list_all_iff quiet_event_def)
  then show ?thesis using es(2) by auto
qed

lemma one_heavy_rule_busy:
  assumes "backend_meta bk = Inr m" and "kind m = ''chat''" and "ONE_HEAVY_PER_GPU cfg"
    and "find (incumbent_test w g bk) BACKENDS = Some (busy_bk, busy_m)"
  shows "one_heavy_rule cfg ev bk g role w =
           (let w1 = snd (running_heavy_backend_on_gpu g (Some bk) w)
            in if role = ''webui'' \<and> WEBUI_FAIL_FAST_IF_GPU_BUSY cfg
               then (Inr (Some (gpu_busy_webui_error g (model busy_m))), w1)
               else if role = ''n8n'' \<and> g = ''1'' \<and> N8N_ALLOW_PREEMPT_GPU1 cfg
               then (Inr None, sleep 3 (snd (stop_container ev (container busy_m) w1)))
               else (Inr (Some (gpu_busy_error g (model busy_m))), w1))"
proof -
  have ne: "bk \<noteq> []"
    using assms(1) backend_id_nonempty backend_meta_in_registry by blast
  have reg: "(busy_bk, busy_m) \<in> set BACKENDS"
    using assms(4) find_Some_mem by fastforce
  have bne: "busy_bk \<noteq> []" and bm: "backend_meta busy_bk = Inr busy_m"
    using reg backend_id_nonempty backend_meta_registered by blast+
  have scan: "fst (running_heavy_backend_on_gpu g (Some bk) w) = Some busy_bk"
    using heavy_scan_find [OF ne, of g BACKENDS w] assms(4)
    by (simp add: running_heavy_backend_on_gpu_def)
  have heavy: "is_heavy_backend bk = Inr True"
    using assms(1,2) by (simp add: is_heavy_backend_def)
  show ?thesis
    using assms(3) heavy scan bne bm
    by (simp add: one_heavy_rule_def Let_def prod.case_eq_if)
qed

lemma registered_gpu: "(bk, m) \<in> set BACKENDS \<Longrightarrow> gpu m = ''0'' \<or> gpu m = ''1''"
  by (auto simp: BACKENDS_def mk_meta_def)

lemma follows_not_missing:
  "follows P w w' \<Longrightarrow> containers w c \<noteq> Missing \<Longrightarrow> containers w' c \<noteq> Missing"
  unfolding follows_def by metis

lemma follows_trace: "follows P w w' \<Longrightarrow> \<exists>es. trace w' = trace w @ es \<and> list_all P es"
  unfolding follows_def by blast

lemma start_attempts_first_event:
  assumes "containers w (container m) \<noteq> Missing" and "0 < n"
  shows "\<exists>es. trace (snd (start_attempts cfg ev bk m role n last_err w)) = trace w @ Start (container m) # es"
proof -
  obtain k where n: "n = Suc k" using assms(2) by (cases n) auto
  let ?s = "start_container ev (container m) w"
  let ?h = "wait_until_healthy ev bk (warmup_timeout_for_role cfg role) (snd ?s)"
  let ?t = "sleep 2 (snd (stop_container ev (container m) (snd ?h)))"
  let ?T = "\<lambda>e::event. True"
  have s: "trace (snd ?s) = trace w @ [Start (container m)]"
    using assms(1) by (simp add: start_container_def log_event_def set_container_def)
  have b: "follows ?T (snd ?s) (sleep 2 (snd ?s))"
    by (simp add: follows_sleep)
  have c: "follows ?T (snd ?s) (snd ?h)"
    by (simp add: follows_wait_until_healthy)
  have d: "follows ?T (snd ?h) ?t"
    by (rule follows_trans [OF follows_stop_container follows_sleep]) simp_all
  have r: "\<And>l w1. follows ?T w1 (snd (start_attempts cfg ev bk m role k l w1))"
    by (simp add: follows_start_attempts)
  have 1: "\<And>l. follows ?T (snd ?s) (snd (start_attempts cfg ev bk m role k l (sleep 2 (snd ?s))))"
    using b r follows_trans by blast
  have 3: "\<And>l. follows ?T (snd ?s) (snd (start_attempts cfg ev bk m role k l ?t))"
    using c d r follows_trans by blast
  have "follows ?T (snd ?s) (snd (start_attempts cfg ev bk m role n last_err w))"
    unfolding n using 1 c 3 by (simp add: Let_def prod.case_eq_if sum.case_eq_if)
  then obtain es where "trace (snd (start_attempts cfg ev bk m role n last_err w)) = trace (snd ?s) @ es"
    using follows_trace by blast
  then show ?thesis using s by simp
qed

lemma embed_rank_never_raises: "fst (stop_gpu1_embed_rank_best_effort ev w) = Inr ()"
  by (simp add: stop_gpu1_embed_rank_best_effort_def backend_meta_def BACKENDS_def
      Let_def prod.case_eq_if sum.case_eq_if)

lemma start_phase_continues:
  assumes "containers w (container m) \<noteq> Missing"
  shows "(fst (start_phase cfg ev bk m role w) = Inr None
            \<or> (\<exists>err. fst (start_phase cfg ev bk m role w) = Inr (Some err) \<and> err_type err = ''start_failed''))
       \<and> (\<exists>es. trace (snd (start_phase cfg ev bk m role w)) = trace w @ es
              \<and> (0 < MAX_START_RETRIES cfg \<longrightarrow> Start (container m) \<in> set es))"
proof -
  let ?T = "\<lambda>e::event. True"
  let ?n = "nat (MAX_START_RETRIES cfg)"
  define w0 where "w0 = (if STOP_EMBED_RANK_BEFORE_GPU1_GENERATOR cfg \<and> gpu m = ''1'' \<and> model m \<in> GPU1_GENERATORS
                         then snd (stop_gpu1_embed_rank_best_effort ev w) else w)"
  have f0: "follows ?T w w0"
    unfolding w0_def by (simp add: follows_refl follows_stop_gpu1_embed_rank)
  have eq: "start_phase cfg ev bk m role w =
              (Inr (fst (start_attempts cfg ev bk m role ?n None w0)),
               snd (start_attempts cfg ev bk m role ?n None w0))"
    unfolding w0_def start_phase_def
    using embed_rank_never_raises [of ev w]
    by (auto simp: Let_def prod.case_eq_if sum.case_eq_if)
  have res: "fst (start_attempts cfg ev bk m role ?n None w0) = None
             \<or> (\<exists>err. fst (start_attempts cfg ev bk m role ?n None w0) = Some err \<and> err_type err = ''start_failed'')"
    using start_attempts_result [of cfg ev bk m role ?n None w0] by (cases "fst (start_attempts cfg ev bk m role ?n None w0)") auto
  obtain es0 where es0: "trace w0 = trace w @ es0"
    using follows_trace [OF f0] by blast
  have nm: "containers w0 (container m) \<noteq> Missing"
    using follows_not_missing [OF f0 assms] .
  obtain es1 where es1: "trace (snd (start_attempts cfg ev bk m role ?n None w0)) = trace w0 @ es1"
    using follows_trace [OF follows_start_attempts [of ?T bk w0 cfg ev m role ?n None]] by auto
  have st: "0 < MAX_START_RETRIES cfg \<longrightarrow> Start (container m) \<in> set es1"
  proof
    assume "0 < MAX_START_RETRIES cfg"
    then have "0 < ?n" by simp
    from start_attempts_first_event [OF nm this, of cfg ev bk role None] es1
    show "Start (container m) \<in> set es1" by auto
  qed
  show ?thesis
    unfolding eq using res es0 es1 st by auto
qed

lemma ensure_online_backend_start_path:
  assumes reg: "backend_meta bk = Inr m"
    and cap: "model_inflight_sum w (model m) < dict_get (CAPS cfg) (model m) 1"
    and stopped: "containers w (container m) = Stopped"
  shows "ensure_online_backend cfg ev bk role w =
           (let w4 = log_event (Acquire (GpuLock (gpu m)))
                       (log_event (StatusQuery (container m))
                         (log_event (Acquire (BackendLock bk))
                           (log_event (StatusQuery (container m)) w)));
                r = gpu_section cfg ev bk m role w4
            in (fst r, log_event (Release (BackendLock bk)) (log_event (Release (GpuLock (gpu m))) (snd r))))"
proof -
  have g: "gpu m = ''0'' \<or> gpu m = ''1''"
    using reg backend_meta_in_registry registered_gpu by blast
  have "ensure_online_backend cfg ev bk role w = start_path cfg ev bk m role (log_event (StatusQuery (container m)) w)"
    using ensure_online_backend_admitted [OF reg, of cfg w ev role] cap stopped
    by (simp add: container_status_def)
  then show ?thesis
    using g stopped by (auto simp: start_path_def container_status_def log_event_def Let_def prod.case_eq_if)
qed

section \<open>The admission front-end\<close>

text \<open>
  An error of status 503 and type \<^verbatim>\<open>gpu_busy\<close> passes the test of the retry loop,
  whatever its message: the type is part of the rendered body.
\<close>

lemma starts_with_append: "starts_with p (p @ s)"
  by (induction p) auto

lemma contains_middle: "contains needle (xs @ needle @ ys)"
proof (induction xs)
  case Nil
  show ?case
  proof (cases "needle @ ys")
    case Nil
    then show ?thesis by simp
  next
    case (Cons a list)
    have "starts_with needle (needle @ ys)"
      by (rule starts_with_append)
    then show ?thesis
      unfolding append_Nil Cons by simp
  qed
next
  case (Cons x xs)
  then show ?case by simp
qed

lemma gpu_busy_type_passes_test:
  assumes "status_code err = 503" and "err_type err = ''gpu_busy''"
  shows "is_gpu_busy_response err"
proof -
  have "body err = (''{'' @ json_string ''error'' @ '':{'' @ json_string ''message'' @ '':'' @ json_string (message err)
            @ '','' @ json_string ''type'' @ '':'' @ [CHR 0x22]) @ ''gpu_busy'' @ ([CHR 0x22] @ ''}}'')"
    using assms(2) by (simp add: body_def json_string_def json_escape_char_def)
  then have "contains ''gpu_busy'' (body err)"
    using contains_middle by metis
  moreover have "body err \<noteq> []"
    by (simp add: body_def)
  ultimately show ?thesis
    using assms(1) by (simp add: is_gpu_busy_response_def)
qed

text \<open>
  When every candidate answers with an error that passes the test, the front-end's own
  error comes back, of type \<^verbatim>\<open>gpu_busy\<close>; a candidate that is ready, or whose error
  does not pass the test, ends the loop with that backend or that error.
\<close>

lemma try_candidates_all_busy:
  assumes "\<And>bk w. bk \<in> set l \<Longrightarrow>
             \<exists>err. fst (ensure_online_backend cfg ev bk role w) = Inr (Some err) \<and> is_gpu_busy_response err"
  shows "fst (try_candidates cfg ev model_id role l w) = Inr (None, Some (no_backend_error model_id))"
  using assms
proof (induction l arbitrary: w)
  case Nil
  then show ?case by simp
next
  case (Cons bk l)
  obtain err where e: "fst (ensure_online_backend cfg ev bk role w) = Inr (Some err)" "is_gpu_busy_response err"
    using Cons.prems [of bk w] by auto
  have "fst (try_candidates cfg ev model_id role l (snd (ensure_online_backend cfg ev bk role w)))
        = Inr (None, Some (no_backend_error model_id))"
    using Cons by simp
  then show ?case
    using e by (simp add: prod.case_eq_if)
qed

lemma try_candidates_first_decides:
  assumes "ensure_online_backend cfg ev bk role w = (Inr r, w1)"
    and "\<And>err. r = Some err \<Longrightarrow> \<not> is_gpu_busy_response err"
  shows "try_candidates cfg ev model_id role (bk # rest) w =
           (case r of None \<Rightarrow> (Inr (Some bk, None), w1) | Some err \<Rightarrow> (Inr (None, Some err), w1))"
  using assms by (cases r) auto

lemma no_backend_error_is_gpu_busy:
  "err_type (no_backend_error model_id) = ''gpu_busy'' \<and> status_code (no_backend_error model_id) = 503"
  by (simp add: no_backend_error_def json_error_def)

text \<open>
  The three handlers, run from a reachable state without interruption, end in a
  reachable state: their last lines are a call entered and then left.
\<close>

lemma reachable_proxied_call:
  assumes "reachable cfg ev w pending" and "backend_meta bk = Inr m"
  shows "reachable cfg ev (snd (proxied_call ev bk m b path w)) pending"
proof -
  let ?w1 = "log_event (Proxy b path) (begin_proxy bk w)"
  have 1: "reachable cfg ev ?w1 (bk # pending)"
    using assms by (rule reachable.enter_proxy)
  have "reachable cfg ev (end_proxy bk m (\<not> proxy_fails ev (length (trace w)) (b @ path)) ?w1) (remove1 bk (bk # pending))"
    by (rule reachable.leave_proxy [OF 1 _ assms(2)]) simp
  moreover have "snd (proxied_call ev bk m b path w)
      = end_proxy bk m (\<not> proxy_fails ev (length (trace w)) (b @ path)) ?w1"
    by (simp add: proxied_call_def proxy_def begin_proxy_def Let_def)
  ultimately show ?thesis by simp
qed

lemma reachable_chat_completions:
  assumes "reachable cfg ev w pending"
  shows "reachable cfg ev (snd (chat_completions cfg ev role payload w)) pending"
proof -
  have adm: "\<And>model_id est. reachable cfg ev (snd (ensure_and_get_backend cfg ev model_id role est w)) pending"
    using assms by (rule reachable.admission)
  have px: "\<And>model_id est bk m b path. backend_meta bk = Inr m \<Longrightarrow>
      reachable cfg ev (snd (proxied_call ev bk m b path (snd (ensure_and_get_backend cfg ev model_id role est w)))) pending"
    using adm reachable_proxied_call by blast
  show ?thesis
    using assms adm px
    by (simp add: chat_completions_def prod.case_eq_if sum.case_eq_if option.case_eq_if
        split: json.splits)
qed

lemma reachable_single_backend_handler:
  assumes "reachable cfg ev w pending"
  shows "reachable cfg ev (snd (single_backend_handler target cfg ev role payload w)) pending"
proof -
  have adm: "\<And>bk. reachable cfg ev (snd (ensure_online_backend cfg ev bk role w)) pending"
    using assms by (rule reachable.controller)
  have px: "\<And>bk m b path. backend_meta bk = Inr m \<Longrightarrow>
      reachable cfg ev (snd (proxied_call ev bk m b path (snd (ensure_online_backend cfg ev bk role w)))) pending"
    using adm reachable_proxied_call by blast
  show ?thesis
    using assms adm px
    by (simp add: single_backend_handler_def prod.case_eq_if sum.case_eq_if option.case_eq_if
        split: json.splits option.splits list.splits)
qed

section \<open>Claim C1: one heavy backend per GPU\<close>

text \<open>
  C1. Take a call of \<^verbatim>\<open>ensure_online_backend\<close> that reaches the start path (a
  registered backend below its cap whose container exists and is stopped) for a chat
  backend, with \<^verbatim>\<open>ONE_HEAVY_PER_GPU\<close> on, while another chat backend of the same GPU
  runs; the incumbent is the first such backend of the registry.
  \<^item> Role \<^verbatim>\<open>webui\<close> with \<^verbatim>\<open>WEBUI_FAIL_FAST_IF_GPU_BUSY\<close> on: the result is the
    \<^verbatim>\<open>gpu_busy\<close> error and the call issues no start, stop or kill.
  \<^item> Otherwise, role \<^verbatim>\<open>n8n\<close> on GPU \<^verbatim>\<open>"1"\<close> with \<^verbatim>\<open>N8N_ALLOW_PREEMPT_GPU1\<close> on:
    a stop of the incumbent's container is issued, with no start, stop or kill before
    it, and the startup goes on: the result is ready or \<^verbatim>\<open>start_failed\<close>, never
    \<^verbatim>\<open>gpu_busy\<close>, and with at least one retry allowed the backend's own container
    is started after that stop.
  \<^item> In every other case: the result is the \<^verbatim>\<open>gpu_busy\<close> error and the call issues
    no start, stop or kill.
\<close>

theorem one_heavy_per_gpu_decision:
  assumes reg: "backend_meta bk = Inr m" and chat: "kind m = ''chat''" and flag: "ONE_HEAVY_PER_GPU cfg"
    and cap: "model_inflight_sum w (model m) < dict_get (CAPS cfg) (model m) 1"
    and stopped: "containers w (container m) = Stopped"
    and inc: "find (incumbent_test w (gpu m) bk) BACKENDS = Some (busy_bk, busy_m)"
  shows "(role = ''webui'' \<and> WEBUI_FAIL_FAST_IF_GPU_BUSY cfg \<longrightarrow>
            fst (ensure_online_backend cfg ev bk role w) = Inr (Some (gpu_busy_webui_error (gpu m) (model busy_m)))
            \<and> (\<exists>es. trace (snd (ensure_online_backend cfg ev bk role w)) = trace w @ es \<and> list_all quiet_event es))
       \<and> (\<not> (role = ''webui'' \<and> WEBUI_FAIL_FAST_IF_GPU_BUSY cfg)
            \<and> role = ''n8n'' \<and> gpu m = ''1'' \<and> N8N_ALLOW_PREEMPT_GPU1 cfg \<longrightarrow>
            (\<exists>es1 es2. trace (snd (ensure_online_backend cfg ev bk role w))
                          = trace w @ es1 @ Stop (container busy_m) # es2
                 \<and> list_all quiet_event es1
                 \<and> (0 < MAX_START_RETRIES cfg \<longrightarrow> Start (container m) \<in> set es2))
            \<and> (fst (ensure_online_backend cfg ev bk role w) = Inr None
                \<or> (\<exists>err. fst (ensure_online_backend cfg ev bk role w) = Inr (Some err)
                       \<and> err_type err = ''start_failed'')))
       \<and> (\<not> (role = ''webui'' \<and> WEBUI_FAIL_FAST_IF_GPU_BUSY cfg)
            \<and> \<not> (role = ''n8n'' \<and> gpu m = ''1'' \<and> N8N_ALLOW_PREEMPT_GPU1 cfg) \<longrightarrow>
            fst (ensure_online_backend cfg ev bk role w) = Inr (Some (gpu_busy_error (gpu m) (model busy_m)))
            \<and> (\<exists>es. trace (snd (ensure_online_backend cfg ev bk role w)) = trace w @ es \<and> list_all quiet_event es))"
proof -
  let ?c = "container m" and ?g = "gpu m"
  let ?pre = "[StatusQuery ?c, Acquire (BackendLock bk), StatusQuery ?c, Acquire (GpuLock ?g)]"
  let ?post = "[Release (GpuLock ?g), Release (BackendLock bk)]"
  define w4 where "w4 = log_event (Acquire (GpuLock ?g)) (log_event (StatusQuery ?c)
                         (log_event (Acquire (BackendLock bk)) (log_event (StatusQuery ?c) w)))"
  define ws where "ws = snd (running_heavy_backend_on_gpu ?g (Some bk) w4)"
  let ?r = "ensure_online_backend cfg ev bk role w"
  have w4: "trace w4 = trace w @ ?pre" "containers w4 = containers w"
    unfolding w4_def by (simp_all add: log_event_def)
  have e: "?r = (fst (gpu_section cfg ev bk m role w4),
                 log_event (Release (BackendLock bk)) (log_event (Release (GpuLock ?g)) (snd (gpu_section cfg ev bk m role w4))))"
    using ensure_online_backend_start_path [OF reg cap stopped, of ev role]
    by (simp add: w4_def Let_def)
  have inc4: "find (incumbent_test w4 ?g bk) BACKENDS = Some (busy_bk, busy_m)"
    using inc w4(2) by (simp add: incumbent_test_def [abs_def])
  note rule = one_heavy_rule_busy [OF reg chat flag inc4, of ev role, folded ws_def, unfolded Let_def]
  have fs: "follows (\<lambda>e. \<exists>c. e = StatusQuery c) w4 ws"
    unfolding ws_def by (rule follows_running_heavy_backend_on_gpu)
  then obtain ss where ss: "trace ws = trace w4 @ ss" "list_all (\<lambda>e. \<exists>c. e = StatusQuery c) ss"
    using follows_trace by blast
  have qss: "list_all quiet_event ss"
    using ss(2) by (auto simp: list_all_iff quiet_event_def)
  have "follows quiet_event w4 ws"
    by (rule follows_mono [OF fs]) (auto simp: quiet_event_def)
  then have cs: "containers ws = containers w"
    using follows_quiet_containers [of w4 ws] w4(2) by simp
  have busy_run: "containers ws (container busy_m) = Running"
    using find_Some_mem [OF inc] cs by (simp add: incumbent_test_def)
  have quiet_pre: "list_all quiet_event (?pre @ ss @ ?post)"
    using qss by (simp add: quiet_event_def)
  have busy_case: "\<And>err. one_heavy_rule cfg ev bk ?g role w4 = (Inr (Some err), ws) \<Longrightarrow>
      fst ?r = Inr (Some err) \<and> (\<exists>es. trace (snd ?r) = trace w @ es \<and> list_all quiet_event es)"
  proof -
    fix err assume o: "one_heavy_rule cfg ev bk ?g role w4 = (Inr (Some err), ws)"
    then have g: "gpu_section cfg ev bk m role w4 = (Inr (Some err), ws)"
      by (simp add: gpu_section_def)
    have "trace (snd ?r) = trace w @ (?pre @ ss @ ?post)"
      unfolding e g using ss(1) w4(1) by (simp add: log_event_def)
    then show "fst ?r = Inr (Some err) \<and> (\<exists>es. trace (snd ?r) = trace w @ es \<and> list_all quiet_event es)"
      using quiet_pre e g by (metis fst_conv)
  qed
  show ?thesis
  proof (intro conjI impI)
    assume a: "role = ''webui'' \<and> WEBUI_FAIL_FAST_IF_GPU_BUSY cfg"
    then have "one_heavy_rule cfg ev bk ?g role w4 = (Inr (Some (gpu_busy_webui_error ?g (model busy_m))), ws)"
      using rule by simp
    from busy_case [OF this]
    show "fst ?r = Inr (Some (gpu_busy_webui_error ?g (model busy_m)))"
      and "\<exists>es. trace (snd ?r) = trace w @ es \<and> list_all quiet_event es"
      by blast+
  next
    assume a: "\<not> (role = ''webui'' \<and> WEBUI_FAIL_FAST_IF_GPU_BUSY cfg)
            \<and> \<not> (role = ''n8n'' \<and> gpu m = ''1'' \<and> N8N_ALLOW_PREEMPT_GPU1 cfg)"
    then have "one_heavy_rule cfg ev bk ?g role w4 = (Inr (Some (gpu_busy_error ?g (model busy_m))), ws)"
      using rule by auto
    from busy_case [OF this]
    show "fst ?r = Inr (Some (gpu_busy_error ?g (model busy_m)))"
      and "\<exists>es. trace (snd ?r) = trace w @ es \<and> list_all quiet_event es"
      by blast+
  next
    assume a: "\<not> (role = ''webui'' \<and> WEBUI_FAIL_FAST_IF_GPU_BUSY cfg)
            \<and> role = ''n8n'' \<and> gpu m = ''1'' \<and> N8N_ALLOW_PREEMPT_GPU1 cfg"
    define wst where "wst = snd (stop_container ev (container busy_m) ws)"
    define wp where "wp = sleep 3 wst"
    have o: "one_heavy_rule cfg ev bk ?g role w4 = (Inr None, wp)"
      using rule a unfolding wp_def wst_def by auto
    then have g: "gpu_section cfg ev bk m role w4 = start_phase cfg ev bk m role wp"
      by (simp add: gpu_section_def)
    obtain ks where ks: "trace wst = trace ws @ Stop (container busy_m) # ks"
      using busy_run unfolding wst_def
      by (cases "stop_fails ev (length (trace ws)) (container busy_m)";
          cases "kill_fails ev (Suc (length (trace ws))) (container busy_m)")
         (simp_all add: stop_container_def log_event_def set_container_def)
    have "follows (\<lambda>e. True) ws wp"
      unfolding wp_def wst_def
      by (rule follows_trans [OF follows_stop_container follows_sleep]) simp_all
    then have nm: "containers wp ?c \<noteq> Missing"
      using follows_not_missing [of "\<lambda>e. True" ws wp ?c] cs stopped by simp
    obtain es where es: "trace (snd (start_phase cfg ev bk m role wp)) = trace wp @ es"
        "0 < MAX_START_RETRIES cfg \<longrightarrow> Start ?c \<in> set es"
      and res: "fst (start_phase cfg ev bk m role wp) = Inr None
            \<or> (\<exists>err. fst (start_phase cfg ev bk m role wp) = Inr (Some err) \<and> err_type err = ''start_failed'')"
      using start_phase_continues [OF nm, of cfg ev bk role] by blast
    have tr: "trace (snd ?r) = trace w @ (?pre @ ss) @ Stop (container busy_m) # (ks @ [Sleep 3] @ es @ ?post)"
      unfolding e g using es(1) ks ss(1) w4(1)
      by (simp add: wp_def sleep_def log_event_def)
    have q: "list_all quiet_event (?pre @ ss)"
      using qss by (simp add: quiet_event_def)
    have st: "0 < MAX_START_RETRIES cfg \<longrightarrow> Start ?c \<in> set (ks @ [Sleep 3] @ es @ ?post)"
      using es(2) by simp
    show "\<exists>es1 es2. trace (snd ?r) = trace w @ es1 @ Stop (container busy_m) # es2
                 \<and> list_all quiet_event es1
                 \<and> (0 < MAX_START_RETRIES cfg \<longrightarrow> Start ?c \<in> set es2)"
      using tr q st by blast
    show "fst ?r = Inr None \<or> (\<exists>err. fst ?r = Inr (Some err) \<and> err_type err = ''start_failed'')"
      unfolding e g using res by simp
  qed
qed

theorem one_heavy_per_gpu_decision_witness:
  "fst (ensure_online_backend default_config ev_ok ''deepseek-r1-8b@1'' ''webui'' w_llama_running)
     = Inr (Some (gpu_busy_webui_error ''1'' ''llama31-8b-instruct''))
   \<and> (\<exists>es1 es2. trace (snd (ensure_online_backend default_config ev_ok ''deepseek-r1-8b@1'' ''n8n'' w_llama_running))
                  = trace w_llama_running @ es1 @ Stop ''llama_1'' # es2
          \<and> list_all quiet_event es1 \<and> Start ''r1_1'' \<in> set es2)"
proof -
  let ?m = "mk_meta ''deepseek-r1-8b'' ''chat'' ''1'' ''throughput'' ''http://r1_1:8000/v1'' ''r1_1''"
  let ?b = "mk_meta ''llama31-8b-instruct'' ''chat'' ''1'' ''throughput'' ''http://llama_1:8000/v1'' ''llama_1''"
  have reg: "backend_meta ''deepseek-r1-8b@1'' = Inr ?m"
    by (simp add: backend_meta_def BACKENDS_def)
  have chat: "kind ?m = ''chat''"
    by (simp add: mk_meta_def)
  have flag: "ONE_HEAVY_PER_GPU default_config"
    by (simp add: default_config_def)
  have cap: "model_inflight_sum w_llama_running (model ?m) < dict_get (CAPS default_config) (model ?m) 1"
    by (simp add: model_inflight_sum_def MODEL_BACKENDS_eq dict_get_def default_config_def mk_meta_def
        w_llama_running_def initial_world_def)
  have stopped: "containers w_llama_running (container ?m) = Stopped"
    by (simp add: w_llama_running_def initial_world_def mk_meta_def)
  have inc: "find (incumbent_test w_llama_running (gpu ?m) ''deepseek-r1-8b@1'') BACKENDS
             = Some (''llama31-8b-instruct@1'', ?b)"
    by (simp add: BACKENDS_def incumbent_test_def mk_meta_def w_llama_running_def initial_world_def)
  have vals: "gpu ?m = ''1''" "model ?b = ''llama31-8b-instruct''" "container ?b = ''llama_1''"
    "container ?m = ''r1_1''"
    by (simp_all add: mk_meta_def)
  have cfgv: "WEBUI_FAIL_FAST_IF_GPU_BUSY default_config" "N8N_ALLOW_PREEMPT_GPU1 default_config"
    "0 < MAX_START_RETRIES default_config"
    by (simp_all add: default_config_def)
  show ?thesis
    using one_heavy_per_gpu_decision [OF reg chat flag cap stopped inc, of "''webui''" ev_ok]
      one_heavy_per_gpu_decision [OF reg chat flag cap stopped inc, of "''n8n''" ev_ok]
      vals cfgv
    by simp
qed

section \<open>Claim C2: the retry over candidates\<close>

lemmas controller_defs =
  ensure_online_backend_def backend_meta_def BACKENDS_def mk_meta_def model_inflight_sum_def
  MODEL_BACKENDS_eq dict_get_def default_config_def initial_world_def
  container_status_def log_event_def start_path_def gpu_section_def one_heavy_rule_def
  is_heavy_backend_def running_heavy_backend_on_gpu_def start_phase_def GPU1_GENERATORS_def
  stop_gpu1_embed_rank_best_effort_def sleep_def start_container_def stop_container_def
  set_container_def warmup_timeout_for_role_def Let_def

lemma ev_llama1_broken_fields:
  "start_fails ev_llama1_broken n c = (c = ''llama_1'')"
  "format_exc ev_llama1_broken n c = docker_text"
  "probe_result ev_llama1_broken n bk = Inr True"
  "stop_fails ev_llama1_broken n c = False"
  "kill_fails ev_llama1_broken n c = False"
  by (simp_all add: ev_llama1_broken_def ev_ok_def)

lemma first_candidate_start_failed:
  "ensure_online_backend default_config ev_llama1_broken ''llama31-8b-instruct@1'' ''n8n'' w_idle
     = (Inr (Some (start_failed_error default_config (Some docker_text))), w_after_llama1)"
  by (simp add: controller_defs w_idle_def w_after_llama1_def ev_llama1_broken_fields numeral_3_eq_3)

lemma start_failed_text_passes_gpu_busy_test:
  "is_gpu_busy_response (start_failed_error default_config (Some docker_text))
   \<and> err_type (start_failed_error default_config (Some docker_text)) = ''start_failed''"
  by (simp add: is_gpu_busy_response_def start_failed_error_def json_error_def body_def
      json_string_def json_escape_char_def docker_text_def default_config_def str_int_def
      str_nat.simps digit_char_def)

lemma second_candidate_ready:
  "ensure_online_backend default_config ev_llama1_broken ''llama31-8b-instruct@0'' ''n8n'' w_after_llama1
     = (Inr None, w_after_llama0)"
proof -
  let ?m = "mk_meta ''llama31-8b-instruct'' ''chat'' ''0'' ''long'' ''http://llama_0:8000/v1'' ''llama_0''"
  have m: "backend_meta ''llama31-8b-instruct@0'' = Inr ?m"
    by (simp add: backend_meta_def BACKENDS_def)
  have h: "\<And>w. wait_until_healthy ev_llama1_broken ''llama31-8b-instruct@0'' 180 w
             = (True, log_event (Probe ''llama31-8b-instruct@0'') w)"
    by (rule wait_until_healthy_first_probe [OF m]) (simp_all add: ev_llama1_broken_fields)
  show ?thesis
    by (simp add: controller_defs w_idle_def w_after_llama1_def w_after_llama0_def
        ev_llama1_broken_fields numeral_3_eq_3 h [unfolded log_event_def])
qed

text \<open>
  C2 fails on the code where it says that any error other than \<^verbatim>\<open>gpu_busy\<close> is
  returned without trying further candidates. The loop recognises \<^verbatim>\<open>gpu_busy\<close> by
  searching the rendered body of a 503 for that text, and the message of a
  \<^verbatim>\<open>start_failed\<close> error carries the text of the last exception. Here every start of
  \<^verbatim>\<open>llama_1\<close> raises with a text that contains \<^verbatim>\<open>gpu_busy\<close>: the controller returns
  \<^verbatim>\<open>start_failed\<close> for \<^verbatim>\<open>llama31-8b-instruct@1\<close>, and the front-end, instead of
  returning it, goes on to \<^verbatim>\<open>llama31-8b-instruct@0\<close>, starts it and answers with it.
\<close>

theorem front_end_retries_after_start_failed:
  "fst (ensure_online_backend default_config ev_llama1_broken ''llama31-8b-instruct@1'' ''n8n'' w_idle)
     = Inr (Some (start_failed_error default_config (Some docker_text)))
   \<and> err_type (start_failed_error default_config (Some docker_text)) = ''start_failed''
   \<and> ensure_and_get_backend default_config ev_llama1_broken ''llama31-8b-instruct'' ''n8n'' (Some 537) w_idle
     = (Inr (Some ''llama31-8b-instruct@0'', None), w_after_llama0)"
proof -
  have c: "choose_backend default_config w_idle ''llama31-8b-instruct'' (Some 537) (Some ''n8n'')
           = Inr (Some ''llama31-8b-instruct@1'')"
    by (simp add: choose_backend_def MODEL_BACKENDS_eq dict_get_def w_idle_def initial_world_def
        adaptive_choice_def default_config_def backend_meta_def BACKENDS_def mk_meta_def)
  have l: "dict_get MODEL_BACKENDS ''llama31-8b-instruct'' [] = [''llama31-8b-instruct@0'', ''llama31-8b-instruct@1'']"
    by (simp add: MODEL_BACKENDS_eq dict_get_def)
  show ?thesis
    using start_failed_text_passes_gpu_busy_test
    by (simp add: ensure_and_get_backend_def c l first_candidate_start_failed second_candidate_ready)
qed

section \<open>Claim C3: the cap is checked first\<close>

text \<open>
  C3. For a registered backend with model \<open>model m\<close>: when the sum of \<^verbatim>\<open>inflight\<close>
  over the model's backends is at least the model's cap, \<^verbatim>\<open>ensure_online_backend\<close>
  returns a \<^verbatim>\<open>rate_limited\<close> error with status 429 and leaves the world as it was, the
  trace included: no engine query, probe, start or stop came before the decision. When
  the sum is below the cap, the error returned, if any, is not \<^verbatim>\<open>rate_limited\<close> and
  not a 429, and the first thing the call does is the query of the container's state.
\<close>

theorem rate_limited_iff_cap_reached:
  assumes "backend_meta bk = Inr m"
  shows "(model_inflight_sum w (model m) \<ge> dict_get (CAPS cfg) (model m) 1 \<longrightarrow>
            (\<exists>err. ensure_online_backend cfg ev bk role w = (Inr (Some err), w)
               \<and> err_type err = ''rate_limited'' \<and> status_code err = 429))
       \<and> (model_inflight_sum w (model m) < dict_get (CAPS cfg) (model m) 1 \<longrightarrow>
            (\<forall>err. fst (ensure_online_backend cfg ev bk role w) = Inr (Some err)
               \<longrightarrow> err_type err \<noteq> ''rate_limited'' \<and> status_code err \<noteq> 429)
            \<and> (\<exists>es. trace (snd (ensure_online_backend cfg ev bk role w))
                      = trace w @ StatusQuery (container m) # es))"
proof (intro conjI impI)
  assume "model_inflight_sum w (model m) \<ge> dict_get (CAPS cfg) (model m) 1"
  then show "\<exists>err. ensure_online_backend cfg ev bk role w = (Inr (Some err), w)
               \<and> err_type err = ''rate_limited'' \<and> status_code err = 429"
    using ensure_online_backend_rate_limited [OF assms]
    by (simp add: rate_limited_error_def json_error_def)
next
  assume lt: "model_inflight_sum w (model m) < dict_get (CAPS cfg) (model m) 1"
  let ?w1 = "log_event (StatusQuery (container m)) w"
  have e: "ensure_online_backend cfg ev bk role w =
           (if containers w (container m) = Missing then (Inr (Some (container_missing_error (container m))), ?w1)
            else if containers w (container m) = Running then probe_running cfg ev bk (model m) ?w1
            else start_path cfg ev bk m role ?w1)"
    using ensure_online_backend_admitted [OF assms, of cfg w ev role] lt
    by (simp add: container_status_def)
  show "\<forall>err. fst (ensure_online_backend cfg ev bk role w) = Inr (Some err)
               \<longrightarrow> err_type err \<noteq> ''rate_limited'' \<and> status_code err \<noteq> 429"
    unfolding e
    by (auto simp: container_missing_error_def json_error_def
        dest!: probe_running_result start_path_result split: if_splits)
  have p: "follows (\<lambda>e. True) ?w1 (snd (probe_running cfg ev bk (model m) ?w1))"
    by (simp add: follows_probe_running)
  have s: "follows (\<lambda>e. True) ?w1 (snd (start_path cfg ev bk m role ?w1))"
    by (simp add: follows_start_path)
  have t: "\<And>w'. follows (\<lambda>e. True) ?w1 w' \<Longrightarrow> \<exists>es. trace w' = trace w @ StatusQuery (container m) # es"
    by (auto simp: follows_def log_event_def)
  show "\<exists>es. trace (snd (ensure_online_backend cfg ev bk role w)) = trace w @ StatusQuery (container m) # es"
    unfolding e using t [OF p] t [OF s] by (simp add: log_event_def)
qed

theorem rate_limited_iff_cap_reached_witness:
  "(\<exists>err. ensure_online_backend default_config ev_ok ''bge-m3@1'' ''webui'' w_full = (Inr (Some err), w_full)
        \<and> err_type err = ''rate_limited'' \<and> status_code err = 429)
   \<and> (\<exists>es. trace (snd (ensure_online_backend default_config ev_ok ''bge-m3@1'' ''webui'' w_idle))
             = trace w_idle @ StatusQuery ''bge_embed_1'' # es)"
proof -
  let ?m = "mk_meta ''bge-m3'' ''embeddings'' ''1'' ''throughput'' ''http://bge_embed_1:8000/v1'' ''bge_embed_1''"
  have h: "backend_meta ''bge-m3@1'' = Inr ?m"
    by (simp add: backend_meta_def BACKENDS_def)
  have full: "model_inflight_sum w_full (model ?m) \<ge> dict_get (CAPS default_config) (model ?m) 1"
    by (simp add: model_inflight_sum_def MODEL_BACKENDS_eq dict_get_def default_config_def mk_meta_def
        w_full_def w_idle_def initial_world_def)
  have idle: "model_inflight_sum w_idle (model ?m) < dict_get (CAPS default_config) (model ?m) 1"
    by (simp add: model_inflight_sum_def MODEL_BACKENDS_eq dict_get_def default_config_def mk_meta_def
        w_idle_def initial_world_def)
  have c: "container ?m = ''bge_embed_1''"
    by (simp add: mk_meta_def)
  show ?thesis
    using rate_limited_iff_cap_reached [OF h, where w = w_full and cfg = default_config and ev = ev_ok and role = "''webui''"]
      rate_limited_iff_cap_reached [OF h, where w = w_idle and cfg = default_config and ev = ev_ok and role = "''webui''"]
      full idle c
    by simp
qed

section \<open>Claim C4: the inflight counter\<close>



section \<open>Claim C5: what the sweeper never stops\<close>

text \<open>
  C5. On a sweeper round no stop is issued for the container of a registered backend
  whose \<^verbatim>\<open>inflight\<close> count is positive; and in every state the running router can
  reach, with \<^verbatim>\<open>KEEP_LAST_PER_GPU\<close> on, none is issued for the backend that is its
  GPU's sticky backend. (The source skips the sticky backend only if it was ever used;
  in a reachable state a sticky backend always was.)
\<close>

theorem sweeper_spares_inflight_and_sticky:
  assumes "(bk, m) \<in> set BACKENDS"
  shows "\<exists>es. trace (snd (sweeper_tick cfg ev w)) = trace w @ es
           \<and> (inflight w bk > 0 \<longrightarrow> Stop (container m) \<notin> set es)
           \<and> (reachable cfg ev w pending \<and> KEEP_LAST_PER_GPU cfg
                \<and> sticky_backend_by_gpu w (gpu m) = Some bk \<longrightarrow> Stop (container m) \<notin> set es)"
proof -
  obtain es where es: "trace (snd (sweeper_tick cfg ev w)) = trace w @ Sleep 60 # es"
    "Stop (container m) \<in> set es \<longleftrightarrow> due_for_stop cfg w (clock w + 60) bk m"
    using sweeper_tick_stops [of cfg ev w] assms(1) by blast
  have a: "inflight w bk > 0 \<longrightarrow> Stop (container m) \<notin> set (Sleep 60 # es)"
    using es(2) by (simp add: due_for_stop_def)
  have b: "reachable cfg ev w pending \<and> KEEP_LAST_PER_GPU cfg
                \<and> sticky_backend_by_gpu w (gpu m) = Some bk \<longrightarrow> Stop (container m) \<notin> set (Sleep 60 # es)"
  proof
    assume h: "reachable cfg ev w pending \<and> KEEP_LAST_PER_GPU cfg \<and> sticky_backend_by_gpu w (gpu m) = Some bk"
    then have "0 < last_used w bk"
      using reachable_invariant [of cfg ev w pending] by blast
    then show "Stop (container m) \<notin> set (Sleep 60 # es)"
      using h es(2) by (simp add: due_for_stop_def)
  qed
  show ?thesis
    using es(1) a b by blast
qed

theorem sweeper_spares_inflight_and_sticky_witness:
  "(\<exists>es. trace (snd (sweeper_tick default_config ev_ok w_pending)) = trace w_pending @ es
        \<and> Stop ''llama_0'' \<notin> set es)
   \<and> (\<exists>es. trace (snd (sweeper_tick default_config ev_ok w_used)) = trace w_used @ es
        \<and> Stop ''llama_0'' \<notin> set es)"
proof -
  let ?m = "mk_meta ''llama31-8b-instruct'' ''chat'' ''0'' ''long'' ''http://llama_0:8000/v1'' ''llama_0''"
  have 1: "(''llama31-8b-instruct@0'', ?m) \<in> set BACKENDS"
    by (simp add: BACKENDS_def)
  have c: "container ?m = ''llama_0''"
    by (simp add: mk_meta_def)
  have p: "inflight w_pending ''llama31-8b-instruct@0'' > 0"
    by (simp add: w_pending_def log_event_def begin_proxy_def initial_world_def)
  have u: "reachable default_config ev_ok w_used [] \<and> KEEP_LAST_PER_GPU default_config
           \<and> sticky_backend_by_gpu w_used (gpu ?m) = Some ''llama31-8b-instruct@0''"
    using reachable_w_used
    by (simp add: w_used_def w_returned_def end_proxy_def Let_def default_config_def mk_meta_def)
  show ?thesis
    using sweeper_spares_inflight_and_sticky [OF 1, of default_config ev_ok w_pending "[]"]
      sweeper_spares_inflight_and_sticky [OF 1, of default_config ev_ok w_used "[]"] p u c
    by simp blast
qed

section \<open>Claim C6: when the sweeper stops a backend\<close>

text \<open>
  C6. On a sweeper round, for a registered backend whose container runs and which
  neither the keep-last test nor the inflight test skips: a stop of its container is
  issued exactly when its idle time is at least the grace period and at least its TTL.
  The idle time is \<open>now - last_used\<close> when \<open>last_used\<close> is positive and \<open>now\<close>
  otherwise, \<open>now\<close> being the clock after the round's one-minute sleep; the TTL is
  \<^verbatim>\<open>GPU1_GENERATOR_TTL_MIN\<close> for a chat backend on GPU \<^verbatim>\<open>"1"\<close> and
  \<^verbatim>\<open>GLOBAL_TTL_MIN\<close> for every other backend, both in minutes.
\<close>

theorem sweeper_stops_iff_idle:
  assumes "(bk, m) \<in> set BACKENDS"
    and "containers w (container m) = Running"
    and "\<not> (KEEP_LAST_PER_GPU cfg \<and> sticky_backend_by_gpu w (gpu m) = Some bk \<and> last_used w bk > 0)"
    and "\<not> inflight w bk > 0"
  shows "\<exists>es. trace (snd (sweeper_tick cfg ev w)) = trace w @ Sleep 60 # es
           \<and> (Stop (container m) \<in> set es \<longleftrightarrow>
                (let now = clock w + 60;
                     idle = (if last_used w bk > 0 then now - last_used w bk else now);
                     ttl = (if kind m = ''chat'' \<and> gpu m = ''1'' then GPU1_GENERATOR_TTL_MIN cfg
                            else GLOBAL_TTL_MIN cfg)
                 in idle \<ge> of_int (GRACE_IDLE_MIN cfg * 60) \<and> idle \<ge> of_int (ttl * 60)))"
proof -
  obtain es where es: "trace (snd (sweeper_tick cfg ev w)) = trace w @ Sleep 60 # es"
    "Stop (container m) \<in> set es \<longleftrightarrow> due_for_stop cfg w (clock w + 60) bk m"
    using sweeper_tick_stops [of cfg ev w] assms(1) by blast
  have ttl: "ttl_for_backend cfg bk =
      Inr (if kind m = ''chat'' \<and> gpu m = ''1'' then GPU1_GENERATOR_TTL_MIN cfg else GLOBAL_TTL_MIN cfg)"
    using backend_meta_registered [OF assms(1)] generators_are_chat [OF assms(1)]
    by (auto simp: ttl_for_backend_def)
  have "due_for_stop cfg w (clock w + 60) bk m \<longleftrightarrow>
        (let now = clock w + 60;
             idle = (if last_used w bk > 0 then now - last_used w bk else now);
             ttl = (if kind m = ''chat'' \<and> gpu m = ''1'' then GPU1_GENERATOR_TTL_MIN cfg
                    else GLOBAL_TTL_MIN cfg)
         in idle \<ge> of_int (GRACE_IDLE_MIN cfg * 60) \<and> idle \<ge> of_int (ttl * 60))"
    using assms(2-4) unfolding due_for_stop_def ttl idle_seconds_def Let_def
    by (simp add: not_less)
  then show ?thesis using es by blast
qed

theorem sweeper_stops_iff_idle_witness:
  "\<exists>es. trace (snd (sweeper_tick default_config ev_ok w_idle_25min)) = trace w_idle_25min @ Sleep 60 # es
        \<and> Stop ''r1_0'' \<in> set es"
proof -
  let ?m = "mk_meta ''deepseek-r1-8b'' ''chat'' ''0'' ''long'' ''http://r1_0:8000/v1'' ''r1_0''"
  have 1: "(''deepseek-r1-8b@0'', ?m) \<in> set BACKENDS"
    by (simp add: BACKENDS_def)
  have 2: "containers w_idle_25min (container ?m) = Running"
    by (simp add: w_idle_25min_def initial_world_def mk_meta_def)
  have 3: "\<not> (KEEP_LAST_PER_GPU default_config
              \<and> sticky_backend_by_gpu w_idle_25min (gpu ?m) = Some ''deepseek-r1-8b@0''
              \<and> last_used w_idle_25min ''deepseek-r1-8b@0'' > 0)"
    by (simp add: w_idle_25min_def initial_world_def)
  have 4: "\<not> inflight w_idle_25min ''deepseek-r1-8b@0'' > 0"
    by (simp add: w_idle_25min_def initial_world_def)
  have 5: "(let now = clock w_idle_25min + 60;
                idle = (if last_used w_idle_25min ''deepseek-r1-8b@0'' > 0
                        then now - last_used w_idle_25min ''deepseek-r1-8b@0'' else now);
                ttl = (if kind ?m = ''chat'' \<and> gpu ?m = ''1'' then GPU1_GENERATOR_TTL_MIN default_config
                       else GLOBAL_TTL_MIN default_config)
            in idle \<ge> of_int (GRACE_IDLE_MIN default_config * 60) \<and> idle \<ge> of_int (ttl * 60))"
    by (simp add: w_idle_25min_def initial_world_def mk_meta_def default_config_def)
  have 6: "container ?m = ''r1_0''"
    by (simp add: mk_meta_def)
  show ?thesis
    using sweeper_stops_iff_idle [OF 1 2 3 4, of ev_ok] 5 6 by simp
qed

section \<open>Claim C7: stickiness comes first\<close>

lemma sticky_loop_hit:
  assumes "sticky_backend_by_gpu w g = Some sb" and "backend_meta sb = Inr m" and "model m = model_id"
    and "\<not> ADAPTIVE_ROUTING_ENABLED cfg \<or> estimated_tokens = None
         \<or> (\<exists>t. estimated_tokens = Some t \<and> strategy m = inferred_need cfg t)"
  shows "sticky_loop cfg w model_id estimated_tokens (g # gpus) = Inr (Some sb)"
proof -
  have "sb \<noteq> []"
    using assms(2) backend_id_nonempty backend_meta_in_registry by blast
  then show ?thesis
    using assms by (auto simp: inferred_need_def Let_def split: option.splits if_splits)
qed

lemma sticky_loop_miss:
  assumes "sticky_backend_by_gpu w g = None
           \<or> (\<exists>sb0 m0. sticky_backend_by_gpu w g = Some sb0 \<and> backend_meta sb0 = Inr m0
                \<and> \<not> (model m0 = model_id
                       \<and> (\<not> ADAPTIVE_ROUTING_ENABLED cfg \<or> estimated_tokens = None
                           \<or> (\<exists>t. estimated_tokens = Some t \<and> strategy m0 = inferred_need cfg t))))"
  shows "sticky_loop cfg w model_id estimated_tokens (g # gpus) = sticky_loop cfg w model_id estimated_tokens gpus"
  using assms by (auto simp: inferred_need_def Let_def split: option.splits if_splits)

text \<open>
  C7. Let \<open>sb\<close> be a registered backend that serves the requested model, and let
  adaptive routing be off, or no estimate be given, or the strategy of \<open>sb\<close> be the
  one the estimate asks for (long exactly when the estimate is above the threshold,
  throughput otherwise). If \<open>sb\<close> is the sticky backend of GPU \<^verbatim>\<open>"0"\<close>, or it is
  the sticky backend of GPU \<^verbatim>\<open>"1"\<close> and GPU \<^verbatim>\<open>"0"\<close> has no sticky backend or one that
  does not meet these conditions, then \<^verbatim>\<open>choose_backend\<close> returns \<open>sb\<close>, whatever the
  role and whatever the adaptive, role and fallback rules would pick.
\<close>

theorem choose_backend_sticky_first:
  assumes "backend_meta sb = Inr m" and "model m = model_id"
    and "\<not> ADAPTIVE_ROUTING_ENABLED cfg \<or> estimated_tokens = None
         \<or> (\<exists>t. estimated_tokens = Some t \<and> strategy m = inferred_need cfg t)"
    and "sticky_backend_by_gpu w ''0'' = Some sb
         \<or> (sticky_backend_by_gpu w ''1'' = Some sb
             \<and> (sticky_backend_by_gpu w ''0'' = None
                 \<or> (\<exists>sb0 m0. sticky_backend_by_gpu w ''0'' = Some sb0 \<and> backend_meta sb0 = Inr m0
                      \<and> \<not> (model m0 = model_id
                             \<and> (\<not> ADAPTIVE_ROUTING_ENABLED cfg \<or> estimated_tokens = None
                                 \<or> (\<exists>t. estimated_tokens = Some t \<and> strategy m0 = inferred_need cfg t))))))"
  shows "choose_backend cfg w model_id estimated_tokens role = Inr (Some sb)"
proof -
  have ne: "dict_get MODEL_BACKENDS model_id [] \<noteq> []"
    using assms(1,2) backend_meta_in_registry model_backends_nonempty by blast
  have "sticky_loop cfg w model_id estimated_tokens [''0'', ''1''] = Inr (Some sb)"
    using assms(4)
  proof
    assume "sticky_backend_by_gpu w ''0'' = Some sb"
    then show ?thesis using assms(1-3) by (rule sticky_loop_hit)
  next
    assume a: "sticky_backend_by_gpu w ''1'' = Some sb
         \<and> (sticky_backend_by_gpu w ''0'' = None
                 \<or> (\<exists>sb0 m0. sticky_backend_by_gpu w ''0'' = Some sb0 \<and> backend_meta sb0 = Inr m0
                      \<and> \<not> (model m0 = model_id
                             \<and> (\<not> ADAPTIVE_ROUTING_ENABLED cfg \<or> estimated_tokens = None
                                 \<or> (\<exists>t. estimated_tokens = Some t \<and> strategy m0 = inferred_need cfg t)))))"
    then have "sticky_loop cfg w model_id estimated_tokens [''0'', ''1'']
               = sticky_loop cfg w model_id estimated_tokens [''1'']"
      by (intro sticky_loop_miss) blast
    moreover have "sticky_loop cfg w model_id estimated_tokens [''1''] = Inr (Some sb)"
      using a assms(1-3) by (intro sticky_loop_hit) auto
    ultimately show ?thesis by simp
  qed
  then show ?thesis
    using ne by (simp add: choose_backend_def split: list.splits)
qed

theorem choose_backend_sticky_first_witness:
  "choose_backend default_config w_sticky1 ''qwen-coder-7b'' (Some 4096) (Some ''webui'') = Inr (Some ''qwen-coder-7b@1'')"
proof -
  let ?m = "mk_meta ''qwen-coder-7b'' ''chat'' ''1'' ''throughput'' ''http://qwen_1:8000/v1'' ''qwen_1''"
  let ?d = "mk_meta ''deepseek-r1-8b'' ''chat'' ''0'' ''long'' ''http://r1_0:8000/v1'' ''r1_0''"
  have 1: "backend_meta ''qwen-coder-7b@1'' = Inr ?m"
    by (simp add: backend_meta_def BACKENDS_def)
  have 2: "model ?m = ''qwen-coder-7b''"
    by (simp add: mk_meta_def)
  have 3: "\<not> ADAPTIVE_ROUTING_ENABLED default_config \<or> Some (4096::int) = None
         \<or> (\<exists>t. Some (4096::int) = Some t \<and> strategy ?m = inferred_need default_config t)"
    by (simp add: mk_meta_def inferred_need_def default_config_def)
  have m0: "backend_meta ''deepseek-r1-8b@0'' = Inr ?d"
    by (simp add: backend_meta_def BACKENDS_def)
  have 4: "sticky_backend_by_gpu w_sticky1 ''0'' = Some ''qwen-coder-7b@1''
         \<or> (sticky_backend_by_gpu w_sticky1 ''1'' = Some ''qwen-coder-7b@1''
             \<and> (sticky_backend_by_gpu w_sticky1 ''0'' = None
                 \<or> (\<exists>sb0 m0. sticky_backend_by_gpu w_sticky1 ''0'' = Some sb0 \<and> backend_meta sb0 = Inr m0
                      \<and> \<not> (model m0 = ''qwen-coder-7b''
                             \<and> (\<not> ADAPTIVE_ROUTING_ENABLED default_config \<or> Some (4096::int) = None
                                 \<or> (\<exists>t. Some (4096::int) = Some t \<and> strategy m0 = inferred_need default_config t))))))"
    using m0 by (simp add: w_sticky1_def mk_meta_def)
  show ?thesis
    by (rule choose_backend_sticky_first [OF 1 2 3 4])
qed

section \<open>Claim C8: the threshold itself routes to throughput\<close>


text \<open>
  C8. With adaptive routing on, an estimate \<open>t\<close> given and no sticky backend returned
  by the first loop: when \<open>t\<close> is at most the threshold (so also when it equals it) and
  the registry's first backend of the model with strategy \<^verbatim>\<open>throughput\<close> is \<open>bk\<close>,
  \<^verbatim>\<open>choose_backend\<close> returns \<open>bk\<close>; when \<open>t\<close> is above the threshold and the
  registry's first backend of the model with strategy \<^verbatim>\<open>long\<close> is \<open>bk\<close>, it returns
  \<open>bk\<close>.
\<close>

theorem choose_backend_adaptive_threshold:
  assumes "ADAPTIVE_ROUTING_ENABLED cfg"
    and "sticky_loop cfg w model_id (Some t) [''0'', ''1''] = Inr None"
  shows "(t \<le> ADAPTIVE_ROUTING_THRESHOLD cfg \<longrightarrow>
            (\<forall>bk m. find (\<lambda>(bk, m). model m = model_id \<and> strategy m = ''throughput'') BACKENDS = Some (bk, m)
               \<longrightarrow> choose_backend cfg w model_id (Some t) role = Inr (Some bk)))
       \<and> (t > ADAPTIVE_ROUTING_THRESHOLD cfg \<longrightarrow>
            (\<forall>bk m. find (\<lambda>(bk, m). model m = model_id \<and> strategy m = ''long'') BACKENDS = Some (bk, m)
               \<longrightarrow> choose_backend cfg w model_id (Some t) role = Inr (Some bk)))"
proof -
  have eq: "\<And>b0 bs. dict_get MODEL_BACKENDS model_id [] = b0 # bs \<Longrightarrow>
      adaptive_choice cfg (b0 # bs) (Some t) =
        (if t > ADAPTIVE_ROUTING_THRESHOLD cfg
         then Inr (map_option fst (find (\<lambda>(bk, m). model m = model_id \<and> strategy m = ''long'') BACKENDS))
         else Inr (map_option fst (find (\<lambda>(bk, m). model m = model_id \<and> strategy m = ''throughput'') BACKENDS)))"
    using assms(1) first_backend_of_model [of _ model_id]
    by (simp add: adaptive_choice_def)
  have ne: "\<And>p x. find (\<lambda>(bk, m). model m = model_id \<and> p m) BACKENDS = Some x
      \<Longrightarrow> dict_get MODEL_BACKENDS model_id [] \<noteq> []"
  proof -
    fix p x
    assume "find (\<lambda>(bk, m). model m = model_id \<and> p m) BACKENDS = Some x"
    then have "x \<in> set BACKENDS \<and> model (snd x) = model_id"
      by (auto dest!: find_Some_mem)
    then show "dict_get MODEL_BACKENDS model_id [] \<noteq> []"
      using model_backends_nonempty [of "fst x" "snd x"] by auto
  qed
  show ?thesis
  proof (intro conjI impI allI)
    fix bk m
    assume le: "t \<le> ADAPTIVE_ROUTING_THRESHOLD cfg"
      and f: "find (\<lambda>(bk, m). model m = model_id \<and> strategy m = ''throughput'') BACKENDS = Some (bk, m)"
    obtain b0 bs where l: "dict_get MODEL_BACKENDS model_id [] = b0 # bs"
      using ne [OF f] by (cases "dict_get MODEL_BACKENDS model_id []") auto
    show "choose_backend cfg w model_id (Some t) role = Inr (Some bk)"
      using le f l eq [OF l] assms(2) by (simp add: choose_backend_def)
  next
    fix bk m
    assume gt: "t > ADAPTIVE_ROUTING_THRESHOLD cfg"
      and f: "find (\<lambda>(bk, m). model m = model_id \<and> strategy m = ''long'') BACKENDS = Some (bk, m)"
    obtain b0 bs where l: "dict_get MODEL_BACKENDS model_id [] = b0 # bs"
      using ne [OF f] by (cases "dict_get MODEL_BACKENDS model_id []") auto
    show "choose_backend cfg w model_id (Some t) role = Inr (Some bk)"
      using gt f l eq [OF l] assms(2) by (simp add: choose_backend_def)
  qed
qed

theorem choose_backend_adaptive_threshold_witness:
  "choose_backend default_config w_idle ''llama31-8b-instruct'' (Some 4096) None
     = Inr (Some ''llama31-8b-instruct@1'')
   \<and> choose_backend default_config w_idle ''llama31-8b-instruct'' (Some 4097) None
     = Inr (Some ''llama31-8b-instruct@0'')"
proof -
  have a: "ADAPTIVE_ROUTING_ENABLED default_config"
    by (simp add: default_config_def)
  have s: "\<And>t. sticky_loop default_config w_idle ''llama31-8b-instruct'' (Some t) [''0'', ''1''] = Inr None"
    by (simp add: w_idle_def initial_world_def)
  have thr: "ADAPTIVE_ROUTING_THRESHOLD default_config = 4096"
    by (simp add: default_config_def)
  have f1: "find (\<lambda>(bk, m). model m = ''llama31-8b-instruct'' \<and> strategy m = ''throughput'') BACKENDS
            = Some (''llama31-8b-instruct@1'',
                    mk_meta ''llama31-8b-instruct'' ''chat'' ''1'' ''throughput'' ''http://llama_1:8000/v1'' ''llama_1'')"
    by (simp add: BACKENDS_def mk_meta_def)
  have f0: "find (\<lambda>(bk, m). model m = ''llama31-8b-instruct'' \<and> strategy m = ''long'') BACKENDS
            = Some (''llama31-8b-instruct@0'',
                    mk_meta ''llama31-8b-instruct'' ''chat'' ''0'' ''long'' ''http://llama_0:8000/v1'' ''llama_0'')"
    by (simp add: BACKENDS_def mk_meta_def)
  show ?thesis
    using choose_backend_adaptive_threshold [OF a s [of 4096], of None]
      choose_backend_adaptive_threshold [OF a s [of 4097], of None] thr f0 f1
    by simp
qed

section \<open>Claim C9: the estimate of a request\<close>

lemma part_tokens_spec_nonneg: "0 \<le> part_tokens_spec item"
  by (cases item) (auto split: json.splits)

lemma content_tokens_spec_nonneg: "0 \<le> content_tokens_spec c"
  by (cases c) (auto intro!: sum_list_nonneg simp: part_tokens_spec_nonneg)

lemma message_tokens_spec_nonneg: "0 \<le> message_tokens_spec msg"
  by (cases msg) (auto simp: content_tokens_spec_nonneg)

lemma content_items_spec:
  "list_all text_part_ok items \<Longrightarrow>
   content_items tot items = Inr (tot + sum_list (map part_tokens_spec items))"
proof (induction items arbitrary: tot)
  case Nil
  then show ?case by simp
next
  case (Cons item items)
  then show ?case
    by (cases item) (auto split: json.splits)
qed

lemma message_loop_spec:
  "list_all message_ok msgs \<Longrightarrow>
   message_loop tot msgs = Inr (tot + sum_list (map message_tokens_spec msgs))"
proof (induction msgs arbitrary: tot)
  case Nil
  then show ?case by simp
next
  case (Cons msg msgs)
  then show ?case
    by (cases msg) (auto split: json.splits simp: content_items_spec)
qed

text \<open>
  C9, as amended. For every well-formed payload \<^verbatim>\<open>estimate_request_tokens\<close> does not
  raise and returns the estimate of the design document, an int that is not negative:
  string content adds \<open>len div 4\<close>, each text part of a list content adds
  \<open>len(text) div 4\<close>, other content and other parts add 0, and \<^verbatim>\<open>max_tokens\<close> (512 when
  absent) is added.
\<close>

theorem estimate_request_tokens_well_formed:
  "well_formed_payload payload \<Longrightarrow>
   estimate_request_tokens payload = Inr (estimate_spec payload) \<and> 0 \<le> estimate_spec payload"
  unfolding well_formed_payload_def estimate_request_tokens_def estimate_spec_def
  by (auto split: json.splits simp: message_loop_spec intro!: sum_list_nonneg message_tokens_spec_nonneg add_nonneg_nonneg)

theorem estimate_request_tokens_well_formed_witness:
  "well_formed_payload (JObj [(''model'', JStr ''qwen-coder-7b''),
       (''messages'', JList [JObj [(''role'', JStr ''user''), (''content'', JStr ''hello there'')],
                             JObj [(''content'', JList [JObj [(''type'', JStr ''text''), (''text'', JStr ''abcdefgh'')],
                                                        JObj [(''type'', JStr ''image_url'')]])],
                             JObj [(''content'', JNull)]]),
       (''max_tokens'', JInt 100)])
   \<and> estimate_request_tokens (JObj [(''model'', JStr ''qwen-coder-7b''),
       (''messages'', JList [JObj [(''role'', JStr ''user''), (''content'', JStr ''hello there'')],
                             JObj [(''content'', JList [JObj [(''type'', JStr ''text''), (''text'', JStr ''abcdefgh'')],
                                                        JObj [(''type'', JStr ''image_url'')]])],
                             JObj [(''content'', JNull)]]),
       (''max_tokens'', JInt 100)]) = Inr 104"
proof -
  let ?p = "JObj [(''model'', JStr ''qwen-coder-7b''),
       (''messages'', JList [JObj [(''role'', JStr ''user''), (''content'', JStr ''hello there'')],
                             JObj [(''content'', JList [JObj [(''type'', JStr ''text''), (''text'', JStr ''abcdefgh'')],
                                                        JObj [(''type'', JStr ''image_url'')]])],
                             JObj [(''content'', JNull)]]),
       (''max_tokens'', JInt 100)]"
  have wf: "well_formed_payload ?p"
    by (simp add: well_formed_payload_def dict_get_def)
  have "estimate_spec ?p = 104"
    by (simp add: estimate_spec_def dict_get_def)
  with estimate_request_tokens_well_formed [OF wf] wf show ?thesis
    by simp
qed

text \<open>
  C9, as stated, fails: the estimator has no error handling of its own. A negative
  \<^verbatim>\<open>max_tokens\<close> gives a negative estimate; a message that is not an object, a
  \<^verbatim>\<open>messages\<close> or \<^verbatim>\<open>max_tokens\<close> of the wrong type and a text part whose text is a
  number raise; a text part whose text is a list adds a quarter of the list's length.
\<close>

theorem estimate_request_tokens_counterexample:
  "estimate_request_tokens (JObj [(''messages'', JList []), (''max_tokens'', JInt (- 1000))]) = Inr (- 1000)
   \<and> estimate_request_tokens (JObj [(''messages'', JList [JStr ''hi''])]) = Inl AttributeError
   \<and> estimate_request_tokens (JObj [(''messages'', JNull)]) = Inl TypeError
   \<and> estimate_request_tokens (JObj [(''messages'', JList []), (''max_tokens'', JStr ''100'')]) = Inl TypeError
   \<and> estimate_request_tokens
        (JObj [(''messages'', JList [JObj [(''content'', JList [JObj [(''type'', JStr ''text''), (''text'', JInt 5)]])]])])
       = Inl TypeError
   \<and> estimate_request_tokens
        (JObj [(''messages'', JList [JObj [(''content'',
            JList [JObj [(''type'', JStr ''text''), (''text'', JList [JInt 1, JInt 2, JInt 3, JInt 4])]])]])])
       = Inr 513"
  by (simp add: estimate_request_tokens_def dict_get_def)

section \<open>Claim C10: a running container is only probed\<close>

text \<open>
  C10. For a registered backend below its model's cap whose container the engine
  reports running at the first state check, \<^verbatim>\<open>ensure_online_backend\<close> decides by the
  health wait alone: ready when it succeeds, the \<^verbatim>\<open>unhealthy\<close> error when it does not.
  After the state query the trace holds nothing but this backend's probes and the
  two-second sleeps between them: no lock is taken, no other container is queried, none
  is started or stopped, and the engine's state is as before. Nothing is assumed about
  the other containers: it holds with another chat backend running on the same GPU.
\<close>

theorem running_backend_fast_path:
  assumes "backend_meta bk = Inr m"
    and "model_inflight_sum w (model m) < dict_get (CAPS cfg) (model m) 1"
    and "containers w (container m) = Running"
  shows "(fst (ensure_online_backend cfg ev bk role w) =
            (if fst (wait_until_healthy ev bk (HEALTH_PROBE_TIMEOUT_S cfg) (log_event (StatusQuery (container m)) w))
             then Inr None else Inr (Some (unhealthy_error (model m)))))
       \<and> (\<exists>es. trace (snd (ensure_online_backend cfg ev bk role w)) = trace w @ StatusQuery (container m) # es
             \<and> list_all (\<lambda>e. e = Probe bk \<or> e = Sleep 2) es)
       \<and> containers (snd (ensure_online_backend cfg ev bk role w)) = containers w"
proof -
  let ?w1 = "log_event (StatusQuery (container m)) w"
  let ?P = "\<lambda>e. e = Probe bk \<or> e = Sleep 2"
  have e: "ensure_online_backend cfg ev bk role w = probe_running cfg ev bk (model m) ?w1"
    using ensure_online_backend_admitted [OF assms(1), of cfg w ev role] assms(2,3)
    by (simp add: container_status_def)
  have f: "follows ?P ?w1 (snd (probe_running cfg ev bk (model m) ?w1))"
    by (simp add: follows_probe_running)
  then obtain es where es: "trace (snd (probe_running cfg ev bk (model m) ?w1)) = trace ?w1 @ es"
      "list_all ?P es"
      "\<forall>c. containers (snd (probe_running cfg ev bk (model m) ?w1)) c = containers ?w1 c
                \<or> (Start c \<in> set es \<or> Stop c \<in> set es)"
    unfolding follows_def by blast
  have "\<And>c. Start c \<notin> set es \<and> Stop c \<notin> set es"
    using es(2) by (auto simp: list_all_iff)
  then have "containers (snd (probe_running cfg ev bk (model m) ?w1)) = containers w"
    using es(3) by (auto simp: log_event_def)
  moreover have "fst (probe_running cfg ev bk (model m) ?w1) =
       (if fst (wait_until_healthy ev bk (HEALTH_PROBE_TIMEOUT_S cfg) ?w1)
        then Inr None else Inr (Some (unhealthy_error (model m))))"
    by (simp add: probe_running_def prod.case_eq_if)
  ultimately show ?thesis
    unfolding e using es(1,2) by (simp add: log_event_def)
qed

theorem running_backend_fast_path_witness:
  "ensure_online_backend default_config ev_ok ''deepseek-r1-8b@1'' ''webui'' w_two_running
     = (Inr None, w_two_running\<lparr>trace := [StatusQuery ''r1_1'', Probe ''deepseek-r1-8b@1'']\<rparr>)"
proof -
  let ?m = "mk_meta ''deepseek-r1-8b'' ''chat'' ''1'' ''throughput'' ''http://r1_1:8000/v1'' ''r1_1''"
  let ?r = "ensure_online_backend default_config ev_ok ''deepseek-r1-8b@1'' ''webui'' w_two_running"
  have h: "backend_meta ''deepseek-r1-8b@1'' = Inr ?m"
    by (simp add: backend_meta_def BACKENDS_def)
  have cap: "model_inflight_sum w_two_running (model ?m) < dict_get (CAPS default_config) (model ?m) 1"
    by (simp add: model_inflight_sum_def MODEL_BACKENDS_eq dict_get_def default_config_def mk_meta_def
        w_two_running_def initial_world_def)
  have run: "containers w_two_running (container ?m) = Running"
    by (simp add: w_two_running_def initial_world_def mk_meta_def)
  have hp: "wait_until_healthy ev_ok ''deepseek-r1-8b@1'' (HEALTH_PROBE_TIMEOUT_S default_config)
              (log_event (StatusQuery (container ?m)) w_two_running)
            = (True, log_event (Probe ''deepseek-r1-8b@1'') (log_event (StatusQuery (container ?m)) w_two_running))"
    by (rule wait_until_healthy_first_probe [OF h]) (simp_all add: default_config_def ev_ok_def)
  have "ensure_online_backend default_config ev_ok ''deepseek-r1-8b@1'' ''webui'' w_two_running
        = probe_running default_config ev_ok ''deepseek-r1-8b@1'' (model ?m) (log_event (StatusQuery (container ?m)) w_two_running)"
    using ensure_online_backend_admitted [OF h, of default_config w_two_running ev_ok "''webui''"] cap run
    by (simp add: container_status_def)
  then have s: "snd ?r = w_two_running\<lparr>trace := [StatusQuery ''r1_1'', Probe ''deepseek-r1-8b@1'']\<rparr>"
    using hp by (simp add: probe_running_def log_event_def w_two_running_def initial_world_def mk_meta_def)
  have "fst ?r = Inr None"
    using running_backend_fast_path [OF h cap run, of ev_ok "''webui''"] hp by simp
  with s show ?thesis
    by (simp add: prod_eq_iff)
qed

end
